theory Spec2Isabelle
  imports Main "HOL-Library.AList" "HOL-Library.Multiset"
begin

section \<open>Python values and built-ins the quiz program relies on\<close>

text \<open>
  Exceptions are values. \<open>HTTPException\<close> carries its status code and detail as the
  handlers of \<^verbatim>\<open>main.py\<close> raise it; \<open>RequestValidationError\<close> is what the web framework
  answers when a path parameter or a request body does not validate (before the handler
  runs); \<open>ValidationError\<close> is a response model rejecting its keyword arguments;
  \<open>ValueError\<close> and \<open>IndexError\<close> are the failures of \<^verbatim>\<open>tuple.index\<close>, \<^verbatim>\<open>random.randint\<close> and
  of indexing; \<open>EOFError\<close> is \<^verbatim>\<open>input()\<close> at the end of standard input.
\<close>

datatype error =
    HTTPException int string
  | RequestValidationError
  | ValidationError
  | ValueError
  | IndexError
  | EOFError

text \<open>The newline character, written \<^verbatim>\<open>\n\<close> in the source.\<close>

definition nl :: string where
  "nl = [CHR 0x0A]"

text \<open>\<^verbatim>\<open>xs[i]\<close>: a negative index counts from the end, anything out of range raises.\<close>

definition getitem :: "'a list \<Rightarrow> int \<Rightarrow> error + 'a" where
  "getitem xs i =
     (let n = int (length xs); j = (if i < 0 then i + n else i)
      in if 0 \<le> j \<and> j < n then Inr (xs ! nat j) else Inl IndexError)"

text \<open>\<^verbatim>\<open>xs.index(x)\<close>: the first position of \<open>x\<close>, \<open>ValueError\<close> when it is absent.\<close>

fun index :: "'a list \<Rightarrow> 'a \<Rightarrow> error + int" where
  "index [] x = Inl ValueError"
| "index (y # ys) x =
     (if y = x then Inr 0
      else case index ys x of Inl e \<Rightarrow> Inl e | Inr k \<Rightarrow> Inr (k + 1))"

text \<open>
  \<^verbatim>\<open>str.lower\<close> and \<^verbatim>\<open>str.strip\<close> on ASCII text: a string is a list of bytes here, and
  the inputs and the bank of this program are ASCII.
\<close>

definition lower_char :: "char \<Rightarrow> char" where
  "lower_char c =
     (case map_of (zip ''ABCDEFGHIJKLMNOPQRSTUVWXYZ'' ''abcdefghijklmnopqrstuvwxyz'') c of
        Some l \<Rightarrow> l
      | None \<Rightarrow> c)"

definition lower :: "string \<Rightarrow> string" where
  "lower s = map lower_char s"

definition isspace :: "char \<Rightarrow> bool" where
  "isspace c \<longleftrightarrow>
     c \<in> set [CHR 0x20, CHR 0x09, CHR 0x0A, CHR 0x0B, CHR 0x0C, CHR 0x0D,
              CHR 0x1C, CHR 0x1D, CHR 0x1E, CHR 0x1F]"

definition strip :: "string \<Rightarrow> string" where
  "strip s = rev (dropWhile isspace (rev (dropWhile isspace s)))"

text \<open>\<^verbatim>\<open>sep.join(xs)\<close>.\<close>

fun join :: "string \<Rightarrow> string list \<Rightarrow> string" where
  "join sep [] = []"
| "join sep [x] = x"
| "join sep (x # y # ys) = x @ sep @ join sep (y # ys)"

text \<open>\<^verbatim>\<open>str(n)\<close> for an integer, as the f-strings of the program format it.\<close>

definition digit :: "nat \<Rightarrow> char" where
  "digit d =
     (if d = 0 then CHR ''0'' else if d = 1 then CHR ''1'' else if d = 2 then CHR ''2''
      else if d = 3 then CHR ''3'' else if d = 4 then CHR ''4'' else if d = 5 then CHR ''5''
      else if d = 6 then CHR ''6'' else if d = 7 then CHR ''7'' else if d = 8 then CHR ''8''
      else CHR ''9'')"

fun str_nat :: "nat \<Rightarrow> string" where
  "str_nat n = (if n < 10 then [digit n] else str_nat (n div 10) @ [digit (n mod 10)])"

definition str :: "int \<Rightarrow> string" where
  "str i = (if i < 0 then ''-'' @ str_nat (nat (- i)) else str_nat (nat i))"

declare str_nat.simps [simp del]


section \<open>\<^verbatim>\<open>chatbot.py\<close>: the question bank\<close>

record Question =
  question_text :: string
  options :: "string list"
  correct_option_key :: string
  explanation :: string

definition LETTER_KEYS :: "string list" where
  "LETTER_KEYS = [''a'', ''b'', ''c'', ''d'']"

definition build_questions :: "Question list" where
  "build_questions =
     [ \<lparr> question_text = ''What is the correct file extension for Python files?'',
         options = [''.pyt'', ''.pt'', ''.py'', ''.python''],
         correct_option_key = ''c'',
         explanation = ''.py is the standard extension for Python source files.'' \<rparr>,
       \<lparr> question_text = ''Which keyword is used to define a function in Python?'',
         options = [''func'', ''def'', ''function'', ''define''],
         correct_option_key = ''b'',
         explanation = ''Functions in Python are defined using the 'def' keyword.'' \<rparr>,
       \<lparr> question_text = ''How do you write a comment in Python?'',
         options = [''// comment'', ''<!-- comment -->'', ''/* comment */'', ''# comment''],
         correct_option_key = ''d'',
         explanation = ''Python uses the hash symbol (#) for single-line comments.'' \<rparr>,
       \<lparr> question_text = ''What is the output type of input() in Python 3?'',
         options = [''int'', ''str'', ''float'', ''bool''],
         correct_option_key = ''b'',
         explanation = ''input() returns a string. Convert it if you need another type.'' \<rparr>,
       \<lparr> question_text = ''Which of the following is a valid list in Python?'',
         options = [''{1, 2, 3}'', ''(1, 2, 3)'', ''[1, 2, 3]'', ''<1, 2, 3>''],
         correct_option_key = ''c'',
         explanation = ''Lists use square brackets, e.g., [1, 2, 3].'' \<rparr> ]"


section \<open>\<^verbatim>\<open>chatbot.py\<close>: the command-line quiz\<close>

text \<open>
  The session of \<^verbatim>\<open>run_quiz_loop\<close>: its two counters, the lines of standard input not yet
  read, and everything written to standard output so far (one entry per write).
\<close>

record session =
  stdin :: "string list"
  stdout :: "string list"
  score :: int
  total_answered :: int

text \<open>\<^verbatim>\<open>print(s)\<close> writes \<open>s\<close> and a newline.\<close>

definition print :: "string \<Rightarrow> session \<Rightarrow> session" where
  "print s st = st\<lparr>stdout := stdout st @ [s @ nl]\<rparr>"

definition print_greeting :: "session \<Rightarrow> session" where
  "print_greeting st =
     print (''Type 's' to skip a question. Good luck!'' @ nl)
       (print ''Answer by typing a, b, c, or d. Type 'q' at any time to quit.''
         (print ''Welcome to the Python Quiz Chatbot!'' st))"

text \<open>
  \<^verbatim>\<open>format_question\<close>: the loop over \<^verbatim>\<open>enumerate(q.options)\<close>, from index \<open>idx\<close> on.
  \<^verbatim>\<open>LETTER_KEYS[idx]\<close> raises for a fifth option.
\<close>

fun format_question_lines :: "nat \<Rightarrow> string list \<Rightarrow> error + string list" where
  "format_question_lines idx [] = Inr []"
| "format_question_lines idx (option # rest) =
     (case getitem LETTER_KEYS (int idx) of
        Inl e \<Rightarrow> Inl e
      | Inr key \<Rightarrow>
          (case format_question_lines (Suc idx) rest of
             Inl e \<Rightarrow> Inl e
           | Inr lines \<Rightarrow> Inr ((''  '' @ key @ '') '' @ option) # lines)))"

definition format_question :: "Question \<Rightarrow> error + string" where
  "format_question q =
     (case format_question_lines 0 (options q) of
        Inl e \<Rightarrow> Inl e
      | Inr lines \<Rightarrow> Inr (join nl (question_text q # lines)))"

text \<open>
  \<^verbatim>\<open>ask_for_choice\<close>: \<^verbatim>\<open>input(prompt_text)\<close> writes the prompt and reads one line; the
  loop repeats until the stripped, lower-cased line is an accepted token. At the end of
  the input \<^verbatim>\<open>input\<close> raises \<open>EOFError\<close>. The result is the choice, the lines left and the
  output.
\<close>

definition invalid_choice_text :: string where
  "invalid_choice_text = ''Please enter a valid choice: a, b, c, d, 's' to skip, or 'q' to quit.''"

fun ask_for_choice_input ::
  "string \<Rightarrow> string list \<Rightarrow> string list \<Rightarrow> (error + string) \<times> string list \<times> string list"
where
  "ask_for_choice_input prompt_text [] out = (Inl EOFError, [], out @ [prompt_text])"
| "ask_for_choice_input prompt_text (line # rest) out =
     (let raw = lower (strip line) in
      if raw \<in> set [''q'', ''s''] \<or> raw \<in> set LETTER_KEYS
      then (Inr raw, rest, out @ [prompt_text])
      else ask_for_choice_input prompt_text rest
             (out @ [prompt_text, invalid_choice_text @ nl]))"

definition ask_for_choice :: "string \<Rightarrow> session \<Rightarrow> (error + string) \<times> session" where
  "ask_for_choice prompt_text st =
     (case ask_for_choice_input prompt_text (stdin st) (stdout st) of
        (r, ins, outs) \<Rightarrow> (r, st\<lparr>stdin := ins, stdout := outs\<rparr>))"

text \<open>
  How a piece of the loop ends: it falls through to the next iteration (\<open>Continue\<close>),
  the function returns (\<open>Return\<close>), an exception leaves it (\<open>Raise\<close>), or it spins for ever
  without reading or writing (\<open>Diverge\<close>). Each carries the session at that point.
\<close>

datatype outcome =
    Continue session
  | Return session
  | Raise error session
  | Diverge session

fun session_of :: "outcome \<Rightarrow> session" where
  "session_of (Continue st) = st"
| "session_of (Return st) = st"
| "session_of (Raise e st) = st"
| "session_of (Diverge st) = st"

definition choice_prompt :: string where
  "choice_prompt = ''Your choice (a/b/c/d, 's' skip, 'q' quit): ''"

definition exit_text :: "session \<Rightarrow> string" where
  "exit_text st =
     nl @ ''Exiting quiz. You answered '' @ str (total_answered st)
        @ '' question(s) with '' @ str (score st) @ '' correct.''"

text \<open>
  The body of \<^verbatim>\<open>for q in shuffled\<close> for one question. The text after \<^verbatim>\<open>Correct!\<close> is written
  with the bytes the source file holds.
\<close>

definition correct_text_line :: string where
  "correct_text_line =
     ''Correct! '' @ [CHR 0xC3, CHR 0xB0, CHR 0xC5, CHR 0xB8, CHR 0xC5, CHR 0xBD,
                      CHR 0xE2, CHR 0x80, CHR 0xB0]"

definition run_quiz_loop_body :: "Question \<Rightarrow> session \<Rightarrow> outcome" where
  "run_quiz_loop_body q st =
     (case format_question q of
        Inl e \<Rightarrow> Raise e st
      | Inr text \<Rightarrow>
          (case ask_for_choice choice_prompt (print text st) of
             (Inl e, st1) \<Rightarrow> Raise e st1
           | (Inr choice, st1) \<Rightarrow>
               if choice = ''q'' then Return (print (exit_text st1) st1)
               else if choice = ''s'' then Continue (print (''Skipped.'' @ nl) st1)
               else
                 let st2 = st1\<lparr>total_answered := total_answered st1 + 1\<rparr> in
                 (case (if choice = correct_option_key q
                        then Inr (print correct_text_line (st2\<lparr>score := score st2 + 1\<rparr>))
                        else
                          (case index LETTER_KEYS (correct_option_key q) of
                             Inl e \<Rightarrow> Inl e
                           | Inr correct_idx \<Rightarrow>
                               (case getitem (options q) correct_idx of
                                  Inl e \<Rightarrow> Inl e
                                | Inr correct_text \<Rightarrow>
                                    Inr (print (''Incorrect. The correct answer is '' @ [CHR 0x27]
                                                @ correct_option_key q @ '') '' @ correct_text
                                                @ [CHR 0x27] @ ''.'') st2)))) of
                    Inl e \<Rightarrow> Raise e st2
                  | Inr st3 \<Rightarrow>
                      Continue
                        (print (''Score: '' @ str (score st3) @ ''/''
                                @ str (total_answered st3) @ nl)
                          (print (''Explanation: '' @ explanation q) st3)))))"

fun run_quiz_loop_for :: "Question list \<Rightarrow> session \<Rightarrow> outcome" where
  "run_quiz_loop_for [] st = Continue st"
| "run_quiz_loop_for (q # rest) st =
     (case run_quiz_loop_body q st of
        Continue st' \<Rightarrow> run_quiz_loop_for rest st'
      | r \<Rightarrow> r)"

text \<open>
  Every question that falls through to the next one has read at least one line: this is
  what bounds the passes of the outer loop by the length of the input.
\<close>

lemma ask_for_choice_input_length:
  "ask_for_choice_input p ins out = (r, ins', out') \<Longrightarrow> length ins' \<le> length ins"
  by (induction p ins out rule: ask_for_choice_input.induct)
     (auto simp: Let_def split: if_splits)

lemma ask_for_choice_input_consumes:
  "ask_for_choice_input p ins out = (Inr c, ins', out') \<Longrightarrow> length ins' < length ins"
  by (induction p ins out rule: ask_for_choice_input.induct)
     (auto simp: Let_def split: if_splits)

lemma ask_for_choice_stdin_less:
  "ask_for_choice p st = (Inr c, st') \<Longrightarrow> length (stdin st') < length (stdin st)"
  by (auto simp: ask_for_choice_def split: prod.splits dest: ask_for_choice_input_consumes)

lemma ask_for_choice_counters:
  "ask_for_choice p st = (r, st') \<Longrightarrow>
     score st' = score st \<and> total_answered st' = total_answered st"
  by (auto simp: ask_for_choice_def split: prod.splits)

lemma body_Continue_consumes:
  "run_quiz_loop_body q st = Continue st' \<Longrightarrow> length (stdin st') < length (stdin st)"
  by (auto simp: run_quiz_loop_body_def print_def Let_def
      split: sum.splits prod.splits if_splits dest!: ask_for_choice_stdin_less)

lemma for_Continue_le:
  "run_quiz_loop_for qs st = Continue st' \<Longrightarrow> length (stdin st') \<le> length (stdin st)"
proof (induction qs arbitrary: st)
  case Nil
  then show ?case by simp
next
  case (Cons q qs)
  then show ?case
    by (auto split: outcome.splits dest!: body_Continue_consumes) fastforce
qed

lemma for_Continue_consumes:
  "run_quiz_loop_for qs st = Continue st' \<Longrightarrow> qs \<noteq> [] \<Longrightarrow>
     length (stdin st') < length (stdin st)"
  by (cases qs) (auto split: outcome.splits dest!: body_Continue_consumes for_Continue_le)

text \<open>
  \<^verbatim>\<open>while True\<close>: pass \<open>n\<close> runs over \<open>shuffle n questions\<close>, the order in which the
  \<open>n\<close>-th call of \<^verbatim>\<open>random.shuffle\<close> leaves the copy \<^verbatim>\<open>questions[:]\<close>; the list \<open>questions\<close>
  itself goes to the next pass as it is. The random generator is the environment's, so
  \<open>shuffle\<close> is a parameter. A pass over no question reads nothing and writes nothing:
  \<^verbatim>\<open>random.shuffle\<close> keeps the length, so every later pass is empty too and the loop never
  ends (\<open>Diverge\<close>).
\<close>

function run_quiz_loop_while ::
  "(nat \<Rightarrow> Question list \<Rightarrow> Question list) \<Rightarrow> Question list \<Rightarrow> nat \<Rightarrow> session \<Rightarrow> outcome"
where
  "run_quiz_loop_while shuffle questions n st =
     (let shuffled = shuffle n questions in
      if shuffled = [] then Diverge st
      else
        (case run_quiz_loop_for shuffled st of
           Continue st' \<Rightarrow> run_quiz_loop_while shuffle questions (Suc n) st'
         | r \<Rightarrow> r))"
  by pat_completeness auto
termination
  by (relation "measure (\<lambda>(shuffle, questions, n, st). length (stdin st))")
     (auto dest: for_Continue_consumes)

declare run_quiz_loop_while.simps [simp del]

text \<open>\<^verbatim>\<open>run_quiz_loop\<close> on the lines of standard input \<open>input_lines\<close>.\<close>

definition run_quiz_loop ::
  "(nat \<Rightarrow> Question list \<Rightarrow> Question list) \<Rightarrow> string list \<Rightarrow> outcome"
where
  "run_quiz_loop shuffle input_lines =
     (let questions = build_questions;
          st = print_greeting
                 \<lparr>stdin = input_lines, stdout = [], score = 0, total_answered = 0\<rparr>
      in run_quiz_loop_while shuffle questions 0 st)"


section \<open>\<^verbatim>\<open>main.py\<close>: the HTTP interface\<close>

text \<open>Values of dictionaries and JSON bodies.\<close>

datatype pyval =
    PInt int
  | PBool bool
  | PStr string
  | PList "pyval list"
  | PDict "(string \<times> pyval) list"

type_synonym pydict = "(string \<times> pyval) list"

text \<open>\<^verbatim>\<open>d.update(other)\<close>: a key already present keeps its place, a new key goes last.\<close>

fun dict_update :: "pydict \<Rightarrow> pydict \<Rightarrow> pydict" where
  "dict_update d [] = d"
| "dict_update d ((k, v) # other) = dict_update (AList.update k v d) other"

text \<open>A list of strings read back from a value, for a field declared \<^verbatim>\<open>List[str]\<close>.\<close>

fun str_list :: "pyval list \<Rightarrow> string list option" where
  "str_list [] = Some []"
| "str_list (PStr s # vs) = (case str_list vs of None \<Rightarrow> None | Some ss \<Rightarrow> Some (s # ss))"
| "str_list (v # vs) = None"

text \<open>
  The module's global: \<^verbatim>\<open>QUESTIONS\<close>, assigned once when the module is loaded. The handlers
  read it; none of them assigns it.
\<close>

record globals =
  QUESTIONS :: "Question list"

definition startup :: globals where
  "startup = \<lparr>QUESTIONS = build_questions\<rparr>"

subsection \<open>The request and response models\<close>

record QuestionResponse =
  id_QR :: int
  question_text_QR :: string
  options_QR :: "string list"

record QuestionDetailResponse =
  id_QDR :: int
  question_text_QDR :: string
  options_QDR :: "string list"
  correct_option_key_QDR :: string
  explanation_QDR :: string

record AnswerSubmitRequest =
  question_id_ASR :: int
  answer_ASR :: string

record AnswerResponse =
  is_correct :: bool
  correct_answer :: string
  correct_answer_text :: string
  explanation_AR :: string

record StatsResponse =
  total_questions :: int

record HealthResponse =
  status :: string
  message :: string

text \<open>
  \<^verbatim>\<open>QuestionResponse(**d)\<close> and \<^verbatim>\<open>QuestionDetailResponse(**d)\<close>: every declared field is
  taken from the dictionary by its name and must have the declared type; other keys are
  ignored.
\<close>

definition QuestionResponse_init :: "pydict \<Rightarrow> error + QuestionResponse" where
  "QuestionResponse_init d =
     (case (map_of d ''id'', map_of d ''question_text'', map_of d ''options'') of
        (Some (PInt i), Some (PStr t), Some (PList vs)) \<Rightarrow>
          (case str_list vs of
             Some os \<Rightarrow> Inr \<lparr>id_QR = i, question_text_QR = t, options_QR = os\<rparr>
           | None \<Rightarrow> Inl ValidationError)
      | _ \<Rightarrow> Inl ValidationError)"

definition QuestionDetailResponse_init :: "pydict \<Rightarrow> error + QuestionDetailResponse" where
  "QuestionDetailResponse_init d =
     (case (map_of d ''id'', map_of d ''question_text'', map_of d ''options'',
            map_of d ''correct_option_key'', map_of d ''explanation'') of
        (Some (PInt i), Some (PStr t), Some (PList vs), Some (PStr k), Some (PStr e)) \<Rightarrow>
          (case str_list vs of
             Some os \<Rightarrow>
               Inr \<lparr>id_QDR = i, question_text_QDR = t, options_QDR = os,
                    correct_option_key_QDR = k, explanation_QDR = e\<rparr>
           | None \<Rightarrow> Inl ValidationError)
      | _ \<Rightarrow> Inl ValidationError)"

text \<open>
  \<^verbatim>\<open>AnswerSubmitRequest\<close>: \<^verbatim>\<open>question_id\<close> is declared \<^verbatim>\<open>ge=0\<close> and \<^verbatim>\<open>answer\<close> with the pattern
  \<^verbatim>\<open>^[a-d]$\<close>, one character from \<open>a\<close> to \<open>d\<close>.
\<close>

definition AnswerSubmitRequest_init :: "int \<Rightarrow> string \<Rightarrow> error + AnswerSubmitRequest" where
  "AnswerSubmitRequest_init question_id answer =
     (if question_id \<ge> 0 \<and> answer \<in> set [''a'', ''b'', ''c'', ''d'']
      then Inr \<lparr>question_id_ASR = question_id, answer_ASR = answer\<rparr>
      else Inl ValidationError)"

text \<open>The JSON object a response model is sent as: its declared fields, in their order.\<close>

definition QuestionResponse_dump :: "QuestionResponse \<Rightarrow> pyval" where
  "QuestionResponse_dump r =
     PDict [(''id'', PInt (id_QR r)),
            (''question_text'', PStr (question_text_QR r)),
            (''options'', PList (map PStr (options_QR r)))]"

definition QuestionDetailResponse_dump :: "QuestionDetailResponse \<Rightarrow> pyval" where
  "QuestionDetailResponse_dump r =
     PDict [(''id'', PInt (id_QDR r)),
            (''question_text'', PStr (question_text_QDR r)),
            (''options'', PList (map PStr (options_QDR r))),
            (''correct_option_key'', PStr (correct_option_key_QDR r)),
            (''explanation'', PStr (explanation_QDR r))]"

definition AnswerResponse_dump :: "AnswerResponse \<Rightarrow> pyval" where
  "AnswerResponse_dump r =
     PDict [(''is_correct'', PBool (is_correct r)),
            (''correct_answer'', PStr (correct_answer r)),
            (''correct_answer_text'', PStr (correct_answer_text r)),
            (''explanation'', PStr (explanation_AR r))]"

definition StatsResponse_dump :: "StatsResponse \<Rightarrow> pyval" where
  "StatsResponse_dump r = PDict [(''total_questions'', PInt (total_questions r))]"

definition HealthResponse_dump :: "HealthResponse \<Rightarrow> pyval" where
  "HealthResponse_dump r =
     PDict [(''status'', PStr (status r)), (''message'', PStr (message r))]"

subsection \<open>The handlers\<close>

definition question_to_response :: "Question \<Rightarrow> int \<Rightarrow> bool \<Rightarrow> pydict" where
  "question_to_response question question_id include_answer =
     (let base = [(''id'', PInt question_id),
                  (''question_text'', PStr (question_text question)),
                  (''options'', PList (map PStr (options question)))]
      in if include_answer
         then dict_update base
                [(''correct_option_key'', PStr (correct_option_key question)),
                 (''explanation'', PStr (explanation question))]
         else base)"

definition root :: pyval where
  "root =
     PDict [(''message'', PStr ''Python Quiz API''),
            (''version'', PStr ''1.0.0''),
            (''endpoints'',
               PDict [(''questions'', PStr ''/api/questions''),
                      (''random_question'', PStr ''/api/questions/random''),
                      (''submit_answer'', PStr ''/api/quiz/submit''),
                      (''health'', PStr ''/api/health''),
                      (''stats'', PStr ''/api/stats''),
                      (''docs'', PStr ''/docs'')])]"

definition health_check :: HealthResponse where
  "health_check = \<lparr>status = ''healthy'', message = ''API is running''\<rparr>"

definition get_stats :: "globals \<Rightarrow> StatsResponse" where
  "get_stats g = \<lparr>total_questions = int (length (QUESTIONS g))\<rparr>"

text \<open>The comprehension of \<^verbatim>\<open>get_all_questions\<close> over \<^verbatim>\<open>enumerate(QUESTIONS)\<close>, from \<open>idx\<close> on.\<close>

fun get_all_questions_from :: "nat \<Rightarrow> Question list \<Rightarrow> error + QuestionResponse list" where
  "get_all_questions_from idx [] = Inr []"
| "get_all_questions_from idx (q # rest) =
     (case QuestionResponse_init (question_to_response q (int idx) False) of
        Inl e \<Rightarrow> Inl e
      | Inr r \<Rightarrow>
          (case get_all_questions_from (Suc idx) rest of
             Inl e \<Rightarrow> Inl e
           | Inr rs \<Rightarrow> Inr (r # rs)))"

definition get_all_questions :: "globals \<Rightarrow> error + QuestionResponse list" where
  "get_all_questions g = get_all_questions_from 0 (QUESTIONS g)"

definition not_found_detail :: "globals \<Rightarrow> int \<Rightarrow> string" where
  "not_found_detail g question_id =
     ''Question with ID '' @ str question_id @ '' not found. Available IDs: 0-''
       @ str (int (length (QUESTIONS g)) - 1)"

definition get_question :: "globals \<Rightarrow> int \<Rightarrow> error + QuestionResponse" where
  "get_question g question_id =
     (if question_id < 0 \<or> question_id \<ge> int (length (QUESTIONS g))
      then Inl (HTTPException 404 (not_found_detail g question_id))
      else
        (case getitem (QUESTIONS g) question_id of
           Inl e \<Rightarrow> Inl e
         | Inr question \<Rightarrow>
             QuestionResponse_init (question_to_response question question_id False)))"

text \<open>
  \<^verbatim>\<open>get_random_question\<close>: \<open>r\<close> is the number \<^verbatim>\<open>random.randint(0, len(QUESTIONS) - 1)\<close> draws,
  which lies between the two bounds; on an empty range \<^verbatim>\<open>randint\<close> raises \<open>ValueError\<close>.
\<close>

definition get_random_question :: "globals \<Rightarrow> int \<Rightarrow> error + QuestionResponse" where
  "get_random_question g r =
     (if int (length (QUESTIONS g)) - 1 < 0 then Inl ValueError
      else
        let question_id = r in
        (case getitem (QUESTIONS g) question_id of
           Inl e \<Rightarrow> Inl e
         | Inr question \<Rightarrow>
             QuestionResponse_init (question_to_response question question_id False)))"

definition get_question_detail :: "globals \<Rightarrow> int \<Rightarrow> error + QuestionDetailResponse" where
  "get_question_detail g question_id =
     (if question_id < 0 \<or> question_id \<ge> int (length (QUESTIONS g))
      then Inl (HTTPException 404 (not_found_detail g question_id))
      else
        (case getitem (QUESTIONS g) question_id of
           Inl e \<Rightarrow> Inl e
         | Inr question \<Rightarrow>
             QuestionDetailResponse_init (question_to_response question question_id True)))"

definition submit_answer :: "globals \<Rightarrow> AnswerSubmitRequest \<Rightarrow> error + AnswerResponse" where
  "submit_answer g request =
     (if question_id_ASR request < 0 \<or> question_id_ASR request \<ge> int (length (QUESTIONS g))
      then Inl (HTTPException 404 (not_found_detail g (question_id_ASR request)))
      else
        (case getitem (QUESTIONS g) (question_id_ASR request) of
           Inl e \<Rightarrow> Inl e
         | Inr question \<Rightarrow>
             let correct = (lower (answer_ASR request) = lower (correct_option_key question)) in
             (case index LETTER_KEYS (correct_option_key question) of
                Inl e \<Rightarrow> Inl e
              | Inr correct_idx \<Rightarrow>
                  (case getitem (options question) correct_idx of
                     Inl e \<Rightarrow> Inl e
                   | Inr text \<Rightarrow>
                       Inr \<lparr>is_correct = correct,
                            correct_answer = correct_option_key question,
                            correct_answer_text = text,
                            explanation_AR = explanation question\<rparr>))))"

text \<open>
  \<^verbatim>\<open>POST /api/quiz/submit\<close> with a body whose \<^verbatim>\<open>question_id\<close> is an integer and whose \<^verbatim>\<open>answer\<close>
  is a string: the body is validated into an \<^verbatim>\<open>AnswerSubmitRequest\<close> before the handler
  runs, and a body that does not validate is answered with a validation error.
\<close>

definition post_quiz_submit :: "globals \<Rightarrow> int \<Rightarrow> string \<Rightarrow> error + AnswerResponse" where
  "post_quiz_submit g question_id answer =
     (case AnswerSubmitRequest_init question_id answer of
        Inl e \<Rightarrow> Inl RequestValidationError
      | Inr request \<Rightarrow> submit_answer g request)"

subsection \<open>Routing\<close>

text \<open>
  The decorators of \<^verbatim>\<open>main.py\<close> register the routes in the order of the file. A request
  goes to the first route whose path pattern matches the whole path and whose method is
  the request's; \<^verbatim>\<open>{name}\<close> in a pattern matches one non-empty segment. The handler's
  \<^verbatim>\<open>question_id: int\<close> is then read from the matched segment as a decimal number with an
  optional sign, and a segment that is no number is answered with a validation error.
  The routes the framework adds by itself for its documentation pages are left out.
\<close>

datatype http_method = GET | POST

datatype endpoint =
    Root
  | Health_check
  | Get_stats
  | Get_all_questions
  | Get_question
  | Get_random_question
  | Get_question_detail
  | Submit_answer

definition routes :: "(http_method \<times> string \<times> endpoint) list" where
  "routes =
     [(GET, ''/'', Root),
      (GET, ''/api/health'', Health_check),
      (GET, ''/api/stats'', Get_stats),
      (GET, ''/api/questions'', Get_all_questions),
      (GET, ''/api/questions/{question_id}'', Get_question),
      (GET, ''/api/questions/random'', Get_random_question),
      (GET, ''/api/questions/{question_id}/detail'', Get_question_detail),
      (POST, ''/api/quiz/submit'', Submit_answer)]"

text \<open>\<^verbatim>\<open>s.split(sep)\<close> for a one-character separator.\<close>

fun split :: "char \<Rightarrow> string \<Rightarrow> string list" where
  "split sep [] = [[]]"
| "split sep (c # cs) =
     (if c = sep then [] # split sep cs
      else case split sep cs of
             [] \<Rightarrow> [[c]]
           | s # ss \<Rightarrow> (c # s) # ss)"

definition is_param :: "string \<Rightarrow> bool" where
  "is_param seg \<longleftrightarrow> seg \<noteq> [] \<and> hd seg = CHR ''{'' \<and> last seg = CHR ''}''"

fun match_segments :: "string list \<Rightarrow> string list \<Rightarrow> (string \<times> string) list option" where
  "match_segments [] [] = Some []"
| "match_segments (p # ps) (s # ss) =
     (if is_param p then
        (if s = [] then None
         else case match_segments ps ss of
                None \<Rightarrow> None
              | Some params \<Rightarrow> Some ((butlast (tl p), s) # params))
      else if p = s then match_segments ps ss
      else None)"
| "match_segments ps ss = None"

definition match_path :: "string \<Rightarrow> string \<Rightarrow> (string \<times> string) list option" where
  "match_path pattern path = match_segments (split CHR ''/'' pattern) (split CHR ''/'' path)"

fun find_route ::
  "(http_method \<times> string \<times> endpoint) list \<Rightarrow> http_method \<Rightarrow> string
     \<Rightarrow> (endpoint \<times> (string \<times> string) list) option"
where
  "find_route [] m path = None"
| "find_route ((m', pattern, ep) # rest) m path =
     (case match_path pattern path of
        Some params \<Rightarrow> if m' = m then Some (ep, params) else find_route rest m path
      | None \<Rightarrow> find_route rest m path)"

definition digit_value :: "char \<Rightarrow> nat option" where
  "digit_value c = map_of (zip ''0123456789'' [0, 1, 2, 3, 4, 5, 6, 7, 8, 9]) c"

fun parse_digits :: "nat \<Rightarrow> string \<Rightarrow> nat option" where
  "parse_digits acc [] = Some acc"
| "parse_digits acc (c # cs) =
     (case digit_value c of
        None \<Rightarrow> None
      | Some d \<Rightarrow> parse_digits (10 * acc + d) cs)"

definition parse_int :: "string \<Rightarrow> int option" where
  "parse_int s =
     (case s of
        [] \<Rightarrow> None
      | c # cs \<Rightarrow>
          if c = CHR ''-'' then
            (if cs = [] then None else map_option (\<lambda>n. - int n) (parse_digits 0 cs))
          else if c = CHR ''+'' then
            (if cs = [] then None else map_option int (parse_digits 0 cs))
          else map_option int (parse_digits 0 s))"

definition path_int :: "(string \<times> string) list \<Rightarrow> string \<Rightarrow> error + int" where
  "path_int params name =
     (case map_of params name of
        None \<Rightarrow> Inl RequestValidationError
      | Some seg \<Rightarrow>
          (case parse_int seg of
             None \<Rightarrow> Inl RequestValidationError
           | Some i \<Rightarrow> Inr i))"

text \<open>
  A request: its method, its path and, when it carries one, the \<^verbatim>\<open>question_id\<close> and the
  \<^verbatim>\<open>answer\<close> of its JSON body.
\<close>

record http_request =
  http_method_of :: http_method
  path_of :: string
  body_of :: "(int \<times> string) option"

text \<open>
  Calling an endpoint: the handler's result is sent as the JSON of its response model.
  \<open>r\<close> is the draw of the random generator, should the handler ask for one.
\<close>

definition call_endpoint ::
  "globals \<Rightarrow> int \<Rightarrow> endpoint \<Rightarrow> (string \<times> string) list \<Rightarrow> (int \<times> string) option
     \<Rightarrow> error + pyval"
where
  "call_endpoint g r ep params body =
     (case ep of
        Root \<Rightarrow> Inr root
      | Health_check \<Rightarrow> Inr (HealthResponse_dump health_check)
      | Get_stats \<Rightarrow> Inr (StatsResponse_dump (get_stats g))
      | Get_all_questions \<Rightarrow>
          (case get_all_questions g of
             Inl e \<Rightarrow> Inl e
           | Inr rs \<Rightarrow> Inr (PList (map QuestionResponse_dump rs)))
      | Get_question \<Rightarrow>
          (case path_int params ''question_id'' of
             Inl e \<Rightarrow> Inl e
           | Inr question_id \<Rightarrow>
               (case get_question g question_id of
                  Inl e \<Rightarrow> Inl e
                | Inr resp \<Rightarrow> Inr (QuestionResponse_dump resp)))
      | Get_random_question \<Rightarrow>
          (case get_random_question g r of
             Inl e \<Rightarrow> Inl e
           | Inr resp \<Rightarrow> Inr (QuestionResponse_dump resp))
      | Get_question_detail \<Rightarrow>
          (case path_int params ''question_id'' of
             Inl e \<Rightarrow> Inl e
           | Inr question_id \<Rightarrow>
               (case get_question_detail g question_id of
                  Inl e \<Rightarrow> Inl e
                | Inr resp \<Rightarrow> Inr (QuestionDetailResponse_dump resp)))
      | Submit_answer \<Rightarrow>
          (case body of
             None \<Rightarrow> Inl RequestValidationError
           | Some (question_id, answer) \<Rightarrow>
               (case post_quiz_submit g question_id answer of
                  Inl e \<Rightarrow> Inl e
                | Inr resp \<Rightarrow> Inr (AnswerResponse_dump resp))))"

text \<open>
  The application serving one request: the response, and the module's globals after it.
  A path no route matches is answered 404; a path that only routes of another method
  match is answered 405.
\<close>

definition app :: "globals \<Rightarrow> int \<Rightarrow> http_request \<Rightarrow> (error + pyval) \<times> globals" where
  "app g r req =
     (case find_route routes (http_method_of req) (path_of req) of
        Some (ep, params) \<Rightarrow> (call_endpoint g r ep params (body_of req), g)
      | None \<Rightarrow>
          if list_ex (\<lambda>(m, pattern, ep). match_path pattern (path_of req) \<noteq> None) routes
          then (Inl (HTTPException 405 ''Method Not Allowed''), g)
          else (Inl (HTTPException 404 ''Not Found''), g))"

text \<open>The status code a result is sent with.\<close>

fun status_code :: "error + pyval \<Rightarrow> int" where
  "status_code (Inr body) = 200"
| "status_code (Inl (HTTPException code detail)) = code"
| "status_code (Inl RequestValidationError) = 422"
| "status_code (Inl e) = 500"

text \<open>Serving requests one after the other, each with its draw, from the globals \<open>g\<close>.\<close>

fun serve :: "globals \<Rightarrow> (int \<times> http_request) list \<Rightarrow> (error + pyval) list \<times> globals" where
  "serve g [] = ([], g)"
| "serve g ((r, req) # rest) =
     (case app g r req of
        (resp, g') \<Rightarrow>
          (case serve g' rest of
             (resps, g'') \<Rightarrow> (resp # resps, g'')))"


section \<open>Predicates and requests of the properties\<close>

text \<open>
  The invariant of the bank: four options for every question and a correct key among the
  letter keys. \<open>option_index_ok\<close> says that the key of a question maps to one of its
  options: it is one of the first letter keys, as many as the question has options.
\<close>

definition option_index_ok :: "Question \<Rightarrow> bool" where
  "option_index_ok q \<longleftrightarrow> correct_option_key q \<in> set (take (length (options q)) LETTER_KEYS)"

definition bank_invariant :: "Question list \<Rightarrow> bool" where
  "bank_invariant qs = list_all (\<lambda>q. length (options q) = 4 \<and> correct_option_key q \<in> set LETTER_KEYS) qs"

text \<open>The request \<^verbatim>\<open>POST /api/quiz/submit\<close> with the body \<^verbatim>\<open>{question_id, answer}\<close>.\<close>

definition submit_request :: "int \<Rightarrow> string \<Rightarrow> http_request" where
  "submit_request question_id answer =
     \<lparr>http_method_of = POST, path_of = ''/api/quiz/submit'', body_of = Some (question_id, answer)\<rparr>"

text \<open>The request \<^verbatim>\<open>GET /api/questions/random\<close>.\<close>

definition random_request :: http_request where
  "random_request = \<lparr>http_method_of = GET, path_of = ''/api/questions/random'', body_of = None\<rparr>"

text \<open>A \<^verbatim>\<open>GET\<close> request for a path.\<close>

definition get_request :: "string \<Rightarrow> http_request" where
  "get_request path = \<lparr>http_method_of = GET, path_of = path, body_of = None\<rparr>"

text \<open>\<^verbatim>\<open>d.keys()\<close> of a JSON object.\<close>

fun keys :: "pyval \<Rightarrow> string list" where
  "keys (PDict d) = map fst d"
| "keys v = []"

text \<open>
  The counters of a session are in order when the score is between 0 and the number of
  answered questions. From a session to a later one they advance when neither decreases
  and the score has grown by no more than the number of answers.
\<close>

definition counters_ok :: "session \<Rightarrow> bool" where
  "counters_ok st \<longleftrightarrow> 0 \<le> score st \<and> score st \<le> total_answered st"

definition counters_advance :: "session \<Rightarrow> session \<Rightarrow> bool" where
  "counters_advance st st' \<longleftrightarrow>
     score st \<le> score st' \<and> total_answered st \<le> total_answered st' \<and>
     score st' - score st \<le> total_answered st' - total_answered st"


section \<open>Properties of the HTTP interface\<close>

lemma getitem_in_range:
  "0 \<le> i \<Longrightarrow> i < int (length xs) \<Longrightarrow> getitem xs i = Inr (xs ! nat i)"
  by (simp add: getitem_def)

lemma str_list_map_PStr: "str_list (map PStr os) = Some os"
  by (induction os) simp_all

lemma QuestionResponse_init_ok:
  "QuestionResponse_init (question_to_response q i False) =
     Inr \<lparr>id_QR = i, question_text_QR = question_text q, options_QR = options q\<rparr>"
  by (simp add: QuestionResponse_init_def question_to_response_def str_list_map_PStr)

lemma QuestionDetailResponse_init_ok:
  "QuestionDetailResponse_init (question_to_response q i True) =
     Inr \<lparr>id_QDR = i, question_text_QDR = question_text q, options_QDR = options q,
          correct_option_key_QDR = correct_option_key q, explanation_QDR = explanation q\<rparr>"
  by (simp add: QuestionDetailResponse_init_def question_to_response_def str_list_map_PStr)

lemma length_startup: "length (QUESTIONS startup) = 5"
  by (simp add: startup_def build_questions_def)

lemma index_LETTER_KEYS:
  "k \<in> set LETTER_KEYS \<Longrightarrow> \<exists>i. index LETTER_KEYS k = Inr i \<and> 0 \<le> i \<and> i < 4"
  by (auto simp: LETTER_KEYS_def)

lemma length_LETTER_KEYS: "length LETTER_KEYS = 4"
  by (simp add: LETTER_KEYS_def)

lemma invariant_option_index_ok:
  assumes "length (options q) = 4" "correct_option_key q \<in> set LETTER_KEYS"
  shows "option_index_ok q"
proof -
  have "take (length (options q)) LETTER_KEYS = LETTER_KEYS"
    using assms(1) length_LETTER_KEYS by (intro take_all) simp
  with assms(2) show ?thesis unfolding option_index_ok_def by simp
qed

lemma index_nonneg: "index xs x = Inr k \<Longrightarrow> 0 \<le> k"
  by (induction xs arbitrary: k) (auto split: if_splits sum.splits)

lemma index_Inr_iff:
  "(\<exists>k. index xs x = Inr k \<and> 0 \<le> k \<and> k < int n) \<longleftrightarrow> x \<in> set (take n xs)"
proof (induction xs arbitrary: n)
  case Nil
  then show ?case by simp
next
  case (Cons y ys)
  show ?case
  proof (cases n)
    case 0
    then show ?thesis by auto
  next
    case (Suc m)
    show ?thesis
    proof (cases "y = x")
      case True
      then show ?thesis using Suc by simp
    next
      case False
      have "(\<exists>k. index (y # ys) x = Inr k \<and> 0 \<le> k \<and> k < int n) \<longleftrightarrow>
            (\<exists>k. index ys x = Inr k \<and> 0 \<le> k \<and> k < int m)"
        using False Suc by (auto split: sum.splits dest: index_nonneg)
      also have "\<dots> \<longleftrightarrow> x \<in> set (take m ys)" by (rule Cons.IH)
      finally show ?thesis using False Suc by simp
    qed
  qed
qed

lemma index_error: "index xs x = Inl e \<Longrightarrow> e = ValueError"
  by (induction xs) (auto split: if_splits sum.splits)

lemma getitem_error: "getitem xs i = Inl e \<Longrightarrow> e = IndexError"
  by (simp add: getitem_def Let_def split: if_splits)

lemma getitem_Inr_iff: "0 \<le> k \<Longrightarrow> (\<exists>text. getitem xs k = Inr text) \<longleftrightarrow> k < int (length xs)"
  by (simp add: getitem_def)

lemma option_index_ok_iff:
  "option_index_ok q \<longleftrightarrow>
     (\<exists>k text. index LETTER_KEYS (correct_option_key q) = Inr k \<and>
                getitem (options q) k = Inr text)"
proof
  assume "option_index_ok q"
  then have "correct_option_key q \<in> set (take (length (options q)) LETTER_KEYS)"
    by (simp only: option_index_ok_def)
  then obtain k where k: "index LETTER_KEYS (correct_option_key q) = Inr k" "0 \<le> k"
      "k < int (length (options q))"
    using index_Inr_iff [of LETTER_KEYS "correct_option_key q" "length (options q)"] by blast
  from k(2,3) obtain t where "getitem (options q) k = Inr t"
    using getitem_Inr_iff [of k "options q"] by blast
  with k(1) show "\<exists>k text. index LETTER_KEYS (correct_option_key q) = Inr k \<and>
                getitem (options q) k = Inr text" by blast
next
  assume "\<exists>k text. index LETTER_KEYS (correct_option_key q) = Inr k \<and>
                getitem (options q) k = Inr text"
  then obtain k t where k: "index LETTER_KEYS (correct_option_key q) = Inr k"
    and g: "getitem (options q) k = Inr t" by blast
  from k have nn: "0 \<le> k" by (rule index_nonneg)
  with g have "k < int (length (options q))"
    using getitem_Inr_iff [of k "options q"] by blast
  with k nn have "correct_option_key q \<in> set (take (length (options q)) LETTER_KEYS)"
    using index_Inr_iff [of LETTER_KEYS "correct_option_key q" "length (options q)"] by blast
  then show "option_index_ok q" by (simp only: option_index_ok_def)
qed

lemma submit_answer_in_range:
  assumes "0 \<le> question_id_ASR request" "question_id_ASR request < int (length (QUESTIONS g))"
  shows "submit_answer g request =
     (case index LETTER_KEYS (correct_option_key (QUESTIONS g ! nat (question_id_ASR request))) of
        Inl e \<Rightarrow> Inl e
      | Inr correct_idx \<Rightarrow>
          (case getitem (options (QUESTIONS g ! nat (question_id_ASR request))) correct_idx of
             Inl e \<Rightarrow> Inl e
           | Inr text \<Rightarrow>
               Inr \<lparr>is_correct = (lower (answer_ASR request) =
                                   lower (correct_option_key (QUESTIONS g ! nat (question_id_ASR request)))),
                    correct_answer = correct_option_key (QUESTIONS g ! nat (question_id_ASR request)),
                    correct_answer_text = text,
                    explanation_AR = explanation (QUESTIONS g ! nat (question_id_ASR request))\<rparr>))"
  using assms by (simp add: submit_answer_def getitem_in_range Let_def)

lemma app_submit:
  "app g r \<lparr>http_method_of = POST, path_of = ''/api/quiz/submit'', body_of = Some (question_id, answer)\<rparr> =
     (case post_quiz_submit g question_id answer of
        Inl e \<Rightarrow> Inl e
      | Inr resp \<Rightarrow> Inr (AnswerResponse_dump resp), g)"
  by (simp add: app_def routes_def match_path_def is_param_def call_endpoint_def)

lemma bank_startup: "bank_invariant (QUESTIONS startup)"
  by (simp add: bank_invariant_def startup_def build_questions_def LETTER_KEYS_def)

lemma post_quiz_submit_valid:
  assumes "0 \<le> question_id" "question_id < int (length (QUESTIONS g))" "answer \<in> set LETTER_KEYS"
  shows "post_quiz_submit g question_id answer =
     (case index LETTER_KEYS (correct_option_key (QUESTIONS g ! nat question_id)) of
        Inl e \<Rightarrow> Inl e
      | Inr correct_idx \<Rightarrow>
          (case getitem (options (QUESTIONS g ! nat question_id)) correct_idx of
             Inl e \<Rightarrow> Inl e
           | Inr text \<Rightarrow>
               Inr \<lparr>is_correct = (lower answer = lower (correct_option_key (QUESTIONS g ! nat question_id))),
                    correct_answer = correct_option_key (QUESTIONS g ! nat question_id),
                    correct_answer_text = text,
                    explanation_AR = explanation (QUESTIONS g ! nat question_id)\<rparr>))"
proof -
  have "AnswerSubmitRequest_init question_id answer =
          Inr \<lparr>question_id_ASR = question_id, answer_ASR = answer\<rparr>"
    using assms by (simp add: AnswerSubmitRequest_init_def LETTER_KEYS_def)
  then show ?thesis
    using assms by (simp add: post_quiz_submit_def submit_answer_in_range split: sum.splits)
qed

lemma nth_startup_invariant:
  assumes "0 \<le> i" "i < int (length (QUESTIONS startup))"
  shows "length (options (QUESTIONS startup ! nat i)) = 4 \<and>
         correct_option_key (QUESTIONS startup ! nat i) \<in> set LETTER_KEYS"
proof -
  have "nat i < length (QUESTIONS startup)" using assms by simp
  then have "QUESTIONS startup ! nat i \<in> set (QUESTIONS startup)" by (rule nth_mem)
  with bank_startup show ?thesis by (simp add: bank_invariant_def list_all_iff)
qed

lemma get_random_question_in_range:
  assumes "0 \<le> r" "r \<le> int (length (QUESTIONS g)) - 1"
  shows "get_random_question g r =
     Inr \<lparr>id_QR = r, question_text_QR = question_text (QUESTIONS g ! nat r),
          options_QR = options (QUESTIONS g ! nat r)\<rparr>"
proof -
  from assms have "QUESTIONS g \<noteq> []" by auto
  with assms show ?thesis
    by (simp add: get_random_question_def getitem_in_range QuestionResponse_init_ok)
qed

lemma route_random:
  "find_route routes GET ''/api/questions/random'' =
     Some (Get_question, [(''question_id'', ''random'')])"
  by (simp add: routes_def match_path_def is_param_def)

lemma path_int_random: "path_int [(''question_id'', ''random'')] ''question_id'' = Inl RequestValidationError"
  by (simp add: path_int_def parse_int_def digit_value_def)

lemma app_globals: "snd (app g r req) = g"
  by (simp add: app_def split: option.splits prod.splits)

lemma serve_globals: "snd (serve g history) = g"
proof (induction history arbitrary: g)
  case Nil
  then show ?case by simp
next
  case (Cons a history)
  obtain r req where a: "a = (r, req)" by (cases a)
  obtain resp g' where s: "app g r req = (resp, g')" by (cases "app g r req")
  then have "g' = g" using app_globals [of g r req] by simp
  with Cons.IH [of g] a s show ?case by (auto split: prod.splits)
qed





lemma get_question_in_range:
  assumes "0 \<le> question_id" "question_id < int (length (QUESTIONS g))"
  shows "get_question g question_id =
     Inr \<lparr>id_QR = question_id, question_text_QR = question_text (QUESTIONS g ! nat question_id),
          options_QR = options (QUESTIONS g ! nat question_id)\<rparr>"
  using assms by (simp add: get_question_def getitem_in_range QuestionResponse_init_ok)

lemma get_question_detail_in_range:
  assumes "0 \<le> question_id" "question_id < int (length (QUESTIONS g))"
  shows "get_question_detail g question_id =
     Inr \<lparr>id_QDR = question_id, question_text_QDR = question_text (QUESTIONS g ! nat question_id),
          options_QDR = options (QUESTIONS g ! nat question_id),
          correct_option_key_QDR = correct_option_key (QUESTIONS g ! nat question_id),
          explanation_QDR = explanation (QUESTIONS g ! nat question_id)\<rparr>"
  using assms by (simp add: get_question_detail_def getitem_in_range QuestionDetailResponse_init_ok)


lemma post_quiz_submit_bank_ok:
  assumes "bank_invariant (QUESTIONS g)" "0 \<le> question_id"
    "question_id < int (length (QUESTIONS g))" "answer \<in> set LETTER_KEYS"
  shows "\<exists>resp. post_quiz_submit g question_id answer = Inr resp"
proof -
  let ?q = "QUESTIONS g ! nat question_id"
  have "?q \<in> set (QUESTIONS g)" using assms(2,3) by (intro nth_mem) simp
  with assms(1) have "length (options ?q) = 4" "correct_option_key ?q \<in> set LETTER_KEYS"
    by (simp_all add: bank_invariant_def list_all_iff)
  then have "option_index_ok ?q" by (rule invariant_option_index_ok)
  then obtain k t where "index LETTER_KEYS (correct_option_key ?q) = Inr k"
    "getitem (options ?q) k = Inr t"
    using option_index_ok_iff by blast
  then show ?thesis using assms(2-4) by (simp add: post_quiz_submit_valid)
qed

lemma get_all_questions_from_enumerate:
  "get_all_questions_from idx qs =
     Inr (map (\<lambda>(i, q). \<lparr>id_QR = int i, question_text_QR = question_text q, options_QR = options q\<rparr>)
            (List.enumerate idx qs))"
  by (induction qs arbitrary: idx) (simp_all add: QuestionResponse_init_ok)

lemma keys_question_to_response:
  "map fst (question_to_response q i False) = [''id'', ''question_text'', ''options'']"
  "map fst (question_to_response q i True) =
     [''id'', ''question_text'', ''options'', ''correct_option_key'', ''explanation'']"
  by (simp_all add: question_to_response_def)

lemma post_quiz_submit_error_iff:
  assumes "0 \<le> question_id" "question_id < int (length (QUESTIONS g))" "answer \<in> set LETTER_KEYS"
  shows "(\<exists>e. post_quiz_submit g question_id answer = Inl e) \<longleftrightarrow>
           \<not> option_index_ok (QUESTIONS g ! nat question_id)"
    and "post_quiz_submit g question_id answer = Inl e \<Longrightarrow> e = ValueError \<or> e = IndexError"
proof -
  let ?q = "QUESTIONS g ! nat question_id"
  note v = post_quiz_submit_valid [OF assms]
  show "(\<exists>e. post_quiz_submit g question_id answer = Inl e) \<longleftrightarrow> \<not> option_index_ok ?q"
    unfolding option_index_ok_iff v by (auto split: sum.splits)
  show "post_quiz_submit g question_id answer = Inl e \<Longrightarrow> e = ValueError \<or> e = IndexError"
    unfolding v by (auto split: sum.splits dest: index_error getitem_error)
qed

lemma bank_build_questions: "bank_invariant build_questions"
  using bank_startup by (simp add: startup_def)

text \<open>
  A path written with \<open>str\<close> is read back by the route as the same integer, so the
  requests for a question and for its detail reach the handlers with that id.
\<close>

lemma digit_value_digit: "d < 10 \<Longrightarrow> digit_value (digit d) = Some d"
proof -
  assume "d < 10"
  then consider "d = 0" | "d = 1" | "d = 2" | "d = 3" | "d = 4" | "d = 5" | "d = 6"
    | "d = 7" | "d = 8" | "d = 9" by atomize_elim arith
  then show ?thesis by cases (simp_all add: digit_def digit_value_def)
qed

lemma digit_in_digits: "digit d \<in> set ''0123456789''"
  by (simp add: digit_def)

lemma parse_digits_append:
  "parse_digits acc (xs @ ys) =
     (case parse_digits acc xs of None \<Rightarrow> None | Some a \<Rightarrow> parse_digits a ys)"
  by (induction xs arbitrary: acc) (simp_all split: option.splits)

lemma parse_digits_str_nat: "parse_digits 0 (str_nat n) = Some n"
proof (induction n rule: str_nat.induct)
  case (1 n)
  show ?case
  proof (cases "n < 10")
    case True
    then show ?thesis by (simp add: str_nat.simps [of n] digit_value_digit)
  next
    case False
    have "n mod 10 < 10" by simp
    then have d: "digit_value (digit (n mod 10)) = Some (n mod 10)" by (rule digit_value_digit)
    from False "1.IH" have "parse_digits 0 (str_nat (n div 10)) = Some (n div 10)" by simp
    with False d show ?thesis
      by (simp add: str_nat.simps [of n] parse_digits_append)
  qed
qed

lemma set_str_nat: "set (str_nat n) \<subseteq> set ''0123456789''"
proof (induction n rule: str_nat.induct)
  case (1 n)
  then show ?case
    using digit_in_digits [of n] digit_in_digits [of "n mod 10"]
    by (cases "n < 10") (simp_all add: str_nat.simps [of n])
qed

lemma str_nat_nonempty: "str_nat n \<noteq> []"
  by (simp add: str_nat.simps [of n])

lemma parse_int_str: "parse_int (str i) = Some i"
proof (cases "i < 0")
  case True
  then show ?thesis
    by (simp add: parse_int_def str_def str_nat_nonempty parse_digits_str_nat)
next
  case False
  obtain c cs where s: "str_nat (nat i) = c # cs"
    using str_nat_nonempty [of "nat i"] by (cases "str_nat (nat i)") auto
  then have "c \<in> set ''0123456789''" using set_str_nat [of "nat i"] by auto
  then have "c \<noteq> CHR ''-''" "c \<noteq> CHR ''+''" by auto
  moreover have "parse_digits 0 (c # cs) = Some (nat i)"
    using parse_digits_str_nat [of "nat i"] s by simp
  ultimately show ?thesis using False s by (simp add: parse_int_def str_def)
qed

lemma no_slash_str: "CHR ''/'' \<notin> set (str i)"
  using set_str_nat [of "nat i"] set_str_nat [of "nat (- i)"] by (auto simp: str_def)

lemma str_nonempty: "str i \<noteq> []"
  by (simp add: str_def str_nat_nonempty)

lemma split_no_sep: "sep \<notin> set s \<Longrightarrow> split sep s = [s]"
  by (induction s) auto

lemma split_append_sep: "sep \<notin> set s \<Longrightarrow> split sep (s @ sep # t) = s # split sep t"
  by (induction s) auto

lemma split_question_path:
  "split CHR ''/'' (''/api/questions/'' @ str i) = [[], ''api'', ''questions'', str i]"
proof -
  have "split CHR ''/'' (''/api/questions/'' @ str i) =
          [] # ''api'' # ''questions'' # split CHR ''/'' (str i)"
    using split_append_sep [of "CHR ''/''" "''''"] split_append_sep [of "CHR ''/''" "''api''"]
      split_append_sep [of "CHR ''/''" "''questions''"]
    by simp
  then show ?thesis by (simp add: split_no_sep no_slash_str)
qed

lemma split_detail_path:
  "split CHR ''/'' (''/api/questions/'' @ str i @ ''/detail'') =
     [[], ''api'', ''questions'', str i, ''detail'']"
proof -
  have "split CHR ''/'' (''/api/questions/'' @ str i @ ''/detail'') =
          [] # ''api'' # ''questions'' # split CHR ''/'' (str i @ ''/detail'')"
    using split_append_sep [of "CHR ''/''" "''''"] split_append_sep [of "CHR ''/''" "''api''"]
      split_append_sep [of "CHR ''/''" "''questions''"]
    by simp
  also have "split CHR ''/'' (str i @ ''/detail'') = str i # split CHR ''/'' ''detail''"
    using split_append_sep [of "CHR ''/''" "str i" "''detail''"] no_slash_str by simp
  finally show ?thesis by simp
qed

lemma route_question:
  assumes "split CHR ''/'' path = [[], ''api'', ''questions'', seg]" "seg \<noteq> []"
  shows "find_route routes GET path = Some (Get_question, [(''question_id'', seg)])"
  using assms by (simp add: routes_def match_path_def is_param_def)

lemma route_detail:
  assumes "split CHR ''/'' path = [[], ''api'', ''questions'', seg, ''detail'']" "seg \<noteq> []"
  shows "find_route routes GET path = Some (Get_question_detail, [(''question_id'', seg)])"
  using assms by (simp add: routes_def match_path_def is_param_def)

lemma app_get_question:
  "fst (app g r (get_request (''/api/questions/'' @ str i))) =
     (case get_question g i of Inl e \<Rightarrow> Inl e | Inr resp \<Rightarrow> Inr (QuestionResponse_dump resp))"
proof -
  note route_question [OF split_question_path str_nonempty, of i]
  then show ?thesis
    unfolding app_def get_request_def
    by (simp add: call_endpoint_def path_int_def parse_int_str del: append.simps)
qed

lemma app_get_question_detail:
  "fst (app g r (get_request (''/api/questions/'' @ str i @ ''/detail''))) =
     (case get_question_detail g i of
        Inl e \<Rightarrow> Inl e
      | Inr resp \<Rightarrow> Inr (QuestionDetailResponse_dump resp))"
proof -
  note route_detail [OF split_detail_path str_nonempty, of i]
  then show ?thesis
    unfolding app_def get_request_def
    by (simp add: call_endpoint_def path_int_def parse_int_str del: append.simps)
qed

lemma app_get_all_questions:
  "fst (app g r (get_request ''/api/questions'')) =
     (case get_all_questions g of
        Inl e \<Rightarrow> Inl e
      | Inr rs \<Rightarrow> Inr (PList (map QuestionResponse_dump rs)))"
  by (simp add: app_def get_request_def routes_def match_path_def is_param_def call_endpoint_def)

lemma app_get_stats:
  "fst (app startup r (get_request ''/api/stats'')) = Inr (PDict [(''total_questions'', PInt 5)])"
  by (simp add: app_def get_request_def routes_def match_path_def is_param_def call_endpoint_def
      StatsResponse_dump_def get_stats_def length_startup)


lemma handlers_response_fields:
  "(0 \<le> question_id \<and> question_id < int (length (QUESTIONS g)) \<longrightarrow>
      get_question g question_id =
        Inr \<lparr>id_QR = question_id,
             question_text_QR = question_text (QUESTIONS g ! nat question_id),
             options_QR = options (QUESTIONS g ! nat question_id)\<rparr> \<and>
      get_question_detail g question_id =
        Inr \<lparr>id_QDR = question_id,
             question_text_QDR = question_text (QUESTIONS g ! nat question_id),
             options_QDR = options (QUESTIONS g ! nat question_id),
             correct_option_key_QDR = correct_option_key (QUESTIONS g ! nat question_id),
             explanation_QDR = explanation (QUESTIONS g ! nat question_id)\<rparr>) \<and>
   get_all_questions g =
     Inr (map (\<lambda>(i, q). \<lparr>id_QR = int i, question_text_QR = question_text q, options_QR = options q\<rparr>)
            (List.enumerate 0 (QUESTIONS g))) \<and>
   keys (QuestionResponse_dump resp) = [''id'', ''question_text'', ''options''] \<and>
   keys (QuestionDetailResponse_dump detail) =
     [''id'', ''question_text'', ''options'', ''correct_option_key'', ''explanation''] \<and>
   map fst (question_to_response q i False) = [''id'', ''question_text'', ''options''] \<and>
   map fst (question_to_response q i True) =
     [''id'', ''question_text'', ''options'', ''correct_option_key'', ''explanation'']"
proof (intro conjI impI)
  assume h: "0 \<le> question_id \<and> question_id < int (length (QUESTIONS g))"
  then show "get_question g question_id =
        Inr \<lparr>id_QR = question_id,
             question_text_QR = question_text (QUESTIONS g ! nat question_id),
             options_QR = options (QUESTIONS g ! nat question_id)\<rparr>"
    by (simp add: get_question_in_range)
  from h show "get_question_detail g question_id =
        Inr \<lparr>id_QDR = question_id,
             question_text_QDR = question_text (QUESTIONS g ! nat question_id),
             options_QDR = options (QUESTIONS g ! nat question_id),
             correct_option_key_QDR = correct_option_key (QUESTIONS g ! nat question_id),
             explanation_QDR = explanation (QUESTIONS g ! nat question_id)\<rparr>"
    by (simp add: get_question_detail_in_range)
next
  show "get_all_questions g =
     Inr (map (\<lambda>(i, q). \<lparr>id_QR = int i, question_text_QR = question_text q, options_QR = options q\<rparr>)
            (List.enumerate 0 (QUESTIONS g)))"
    by (simp only: get_all_questions_def get_all_questions_from_enumerate)
qed (simp_all add: QuestionResponse_dump_def QuestionDetailResponse_dump_def keys_question_to_response)

text \<open>
  Claim C1. For every \<open>question_id\<close> from 0 to N - 1 and every answer letter among a, b, c
  and d, \<^verbatim>\<open>POST /api/quiz/submit\<close> answers with an \<^verbatim>\<open>AnswerResponse\<close> whose \<open>is_correct\<close> is
  true exactly when the lower-cased answer equals the lower-cased \<open>correct_option_key\<close> of
  the question, and whose \<open>correct_answer_text\<close> is the option at the position of the key
  among the letter keys. Submitting \<open>c\<close> for question 0 is correct, with the text \<open>.py\<close>.
\<close>

theorem C1_submit_correctness:
  "(\<forall>question_id answer r.
      0 \<le> question_id \<and> question_id < int (length (QUESTIONS startup)) \<and> answer \<in> set LETTER_KEYS \<longrightarrow>
      (\<exists>resp correct_idx.
         fst (app startup r (submit_request question_id answer)) = Inr (AnswerResponse_dump resp) \<and>
         post_quiz_submit startup question_id answer = Inr resp \<and>
         (is_correct resp \<longleftrightarrow>
            lower answer = lower (correct_option_key (QUESTIONS startup ! nat question_id))) \<and>
         index LETTER_KEYS (correct_option_key (QUESTIONS startup ! nat question_id)) = Inr correct_idx \<and>
         0 \<le> correct_idx \<and> correct_idx < int (length (options (QUESTIONS startup ! nat question_id))) \<and>
         correct_answer_text resp = options (QUESTIONS startup ! nat question_id) ! nat correct_idx)) \<and>
   post_quiz_submit startup 0 ''c'' =
     Inr \<lparr>is_correct = True, correct_answer = ''c'', correct_answer_text = ''.py'',
          explanation_AR = ''.py is the standard extension for Python source files.''\<rparr>"
proof (intro conjI allI impI)
  fix question_id :: int and answer :: string and r :: int
  assume h: "0 \<le> question_id \<and> question_id < int (length (QUESTIONS startup)) \<and> answer \<in> set LETTER_KEYS"
  let ?q = "QUESTIONS startup ! nat question_id"
  from h have inv: "length (options ?q) = 4" "correct_option_key ?q \<in> set LETTER_KEYS"
    using nth_startup_invariant by blast+
  from index_LETTER_KEYS [OF inv(2)] obtain k where
    k: "index LETTER_KEYS (correct_option_key ?q) = Inr k" "0 \<le> k" "k < 4" by blast
  with inv have g: "getitem (options ?q) k = Inr (options ?q ! nat k)"
    by (simp add: getitem_in_range)
  let ?resp = "\<lparr>is_correct = (lower answer = lower (correct_option_key ?q)),
                 correct_answer = correct_option_key ?q,
                 correct_answer_text = options ?q ! nat k,
                 explanation_AR = explanation ?q\<rparr>"
  have p: "post_quiz_submit startup question_id answer = Inr ?resp"
    using h k g by (simp add: post_quiz_submit_valid)
  have a: "fst (app startup r (submit_request question_id answer)) = Inr (AnswerResponse_dump ?resp)"
    by (simp add: submit_request_def app_submit p)
  show "\<exists>resp correct_idx.
         fst (app startup r (submit_request question_id answer)) = Inr (AnswerResponse_dump resp) \<and>
         post_quiz_submit startup question_id answer = Inr resp \<and>
         (is_correct resp \<longleftrightarrow> lower answer = lower (correct_option_key ?q)) \<and>
         index LETTER_KEYS (correct_option_key ?q) = Inr correct_idx \<and>
         0 \<le> correct_idx \<and> correct_idx < int (length (options ?q)) \<and>
         correct_answer_text resp = options ?q ! nat correct_idx"
    using p a k inv by (intro exI [of _ ?resp] exI [of _ k]) simp
next
  show "post_quiz_submit startup 0 ''c'' =
     Inr \<lparr>is_correct = True, correct_answer = ''c'', correct_answer_text = ''.py'',
          explanation_AR = ''.py is the standard extension for Python source files.''\<rparr>"
    by (simp add: post_quiz_submit_def AnswerSubmitRequest_init_def submit_answer_def
        startup_def build_questions_def getitem_def LETTER_KEYS_def lower_def lower_char_def)
qed

theorem C1_submit_correctness_witness:
  "\<exists>resp. fst (app startup 7 (submit_request 0 ''c'')) = Inr (AnswerResponse_dump resp) \<and>
          is_correct resp \<and> correct_answer_text resp = ''.py''"
proof -
  have h: "(0::int) \<le> 0 \<and> (0::int) < int (length (QUESTIONS startup)) \<and> ''c'' \<in> set LETTER_KEYS"
    by (simp add: length_startup LETTER_KEYS_def)
  from C1_submit_correctness have
    "\<exists>resp correct_idx.
         fst (app startup 7 (submit_request 0 ''c'')) = Inr (AnswerResponse_dump resp) \<and>
         post_quiz_submit startup 0 ''c'' = Inr resp \<and>
         (is_correct resp \<longleftrightarrow>
            lower ''c'' = lower (correct_option_key (QUESTIONS startup ! nat 0))) \<and>
         index LETTER_KEYS (correct_option_key (QUESTIONS startup ! nat 0)) = Inr correct_idx \<and>
         0 \<le> correct_idx \<and> correct_idx < int (length (options (QUESTIONS startup ! nat 0))) \<and>
         correct_answer_text resp = options (QUESTIONS startup ! nat 0) ! nat correct_idx"
    using h by blast
  then obtain resp correct_idx where
    a: "fst (app startup 7 (submit_request 0 ''c'')) = Inr (AnswerResponse_dump resp)" and
    c: "is_correct resp \<longleftrightarrow> lower ''c'' = lower (correct_option_key (QUESTIONS startup ! nat 0))" and
    i: "index LETTER_KEYS (correct_option_key (QUESTIONS startup ! nat 0)) = Inr correct_idx" and
    t: "correct_answer_text resp = options (QUESTIONS startup ! nat 0) ! nat correct_idx"
    by blast
  from i have "correct_idx = 2"
    by (simp add: startup_def build_questions_def LETTER_KEYS_def)
  with t have "correct_answer_text resp = ''.py''"
    by (simp add: startup_def build_questions_def)
  moreover from c have "is_correct resp"
    by (simp add: startup_def build_questions_def)
  ultimately show ?thesis using a by blast
qed

text \<open>
  Claim C2. Every call of \<^verbatim>\<open>GET /api/questions/random\<close> is to succeed with a question
  whose id is drawn from 0 to N - 1. The handler \<open>get_random_question\<close> does so for every
  draw in that range (\<open>get_random_question_in_range\<close>), but no request reaches it: the route
  \<^verbatim>\<open>/api/questions/{question_id}\<close> is registered before \<^verbatim>\<open>/api/questions/random\<close> and matches
  the path with \<open>question_id = random\<close>, which is no integer. Whatever the bank and the
  draw, the request is answered with a validation error, status 422.
\<close>

theorem C2_random_route_shadowed:
  "find_route routes GET ''/api/questions/random'' =
     Some (Get_question, [(''question_id'', ''random'')]) \<and>
   fst (app g r random_request) = Inl RequestValidationError \<and>
   status_code (fst (app g r random_request)) = 422"
proof -
  have "fst (app g r random_request) = Inl RequestValidationError"
    by (simp add: app_def random_request_def route_random call_endpoint_def path_int_random)
  then show ?thesis by (simp add: route_random)
qed




text \<open>
  Claim C4. Every question of \<open>build_questions\<close> has four options and a correct key among
  a, b, c and d, so that the key maps to one of its options. The module's global is this
  bank from the start, and after any sequence of requests, whatever the draws, it is
  still this bank.
\<close>

theorem C4_bank_invariant:
  "(\<forall>q \<in> set build_questions.
      length (options q) = 4 \<and> correct_option_key q \<in> set LETTER_KEYS \<and> option_index_ok q) \<and>
   bank_invariant build_questions \<and>
   QUESTIONS startup = build_questions \<and>
   (\<forall>history. QUESTIONS (snd (serve startup history)) = build_questions \<and>
              bank_invariant (QUESTIONS (snd (serve startup history))))"
proof -
  have b: "bank_invariant build_questions"
    using bank_startup by (simp add: startup_def)
  then have "\<forall>q \<in> set build_questions.
      length (options q) = 4 \<and> correct_option_key q \<in> set LETTER_KEYS"
    by (simp add: bank_invariant_def list_all_iff)
  then have "\<forall>q \<in> set build_questions.
      length (options q) = 4 \<and> correct_option_key q \<in> set LETTER_KEYS \<and> option_index_ok q"
    using invariant_option_index_ok by blast
  moreover have "QUESTIONS startup = build_questions" by (simp add: startup_def)
  ultimately show ?thesis using b by (simp add: serve_globals)
qed

theorem C4_bank_invariant_witness:
  "length (options (build_questions ! 2)) = 4 \<and>
   correct_option_key (build_questions ! 2) \<in> set LETTER_KEYS \<and>
   QUESTIONS (snd (serve startup [(3, submit_request 2 ''a''), (1, random_request)])) = build_questions"
proof -
  have "build_questions ! 2 \<in> set build_questions"
    by (simp add: build_questions_def)
  with C4_bank_invariant show ?thesis by blast
qed

text \<open>
  Claim C5. For every valid \<open>question_id\<close>, \<open>get_question\<close> returns the id, the text and the
  options of the bank entry, and \<open>get_question_detail\<close> returns these with the entry's
  correct key and explanation; the requests \<^verbatim>\<open>GET /api/questions/{id}\<close> and
  \<^verbatim>\<open>GET /api/questions/{id}/detail\<close> are answered with these as JSON.
  \<open>get_all_questions\<close>, which answers \<^verbatim>\<open>GET /api/questions\<close>, lists the bank in its order,
  each question with its position as id. A question response is sent with exactly the fields
  id, question_text and options (as \<open>question_to_response\<close> builds it without the answer),
  a detail response with correct_option_key and explanation in addition.
\<close>

theorem C5_response_fields:
  "(0 \<le> question_id \<and> question_id < int (length (QUESTIONS g)) \<longrightarrow>
      get_question g question_id =
        Inr \<lparr>id_QR = question_id,
             question_text_QR = question_text (QUESTIONS g ! nat question_id),
             options_QR = options (QUESTIONS g ! nat question_id)\<rparr> \<and>
      fst (app g r (get_request (''/api/questions/'' @ str question_id))) =
        Inr (QuestionResponse_dump
              \<lparr>id_QR = question_id,
               question_text_QR = question_text (QUESTIONS g ! nat question_id),
               options_QR = options (QUESTIONS g ! nat question_id)\<rparr>) \<and>
      get_question_detail g question_id =
        Inr \<lparr>id_QDR = question_id,
             question_text_QDR = question_text (QUESTIONS g ! nat question_id),
             options_QDR = options (QUESTIONS g ! nat question_id),
             correct_option_key_QDR = correct_option_key (QUESTIONS g ! nat question_id),
             explanation_QDR = explanation (QUESTIONS g ! nat question_id)\<rparr> \<and>
      fst (app g r (get_request (''/api/questions/'' @ str question_id @ ''/detail''))) =
        Inr (QuestionDetailResponse_dump
              \<lparr>id_QDR = question_id,
               question_text_QDR = question_text (QUESTIONS g ! nat question_id),
               options_QDR = options (QUESTIONS g ! nat question_id),
               correct_option_key_QDR = correct_option_key (QUESTIONS g ! nat question_id),
               explanation_QDR = explanation (QUESTIONS g ! nat question_id)\<rparr>)) \<and>
   get_all_questions g =
     Inr (map (\<lambda>(i, q). \<lparr>id_QR = int i, question_text_QR = question_text q, options_QR = options q\<rparr>)
            (List.enumerate 0 (QUESTIONS g))) \<and>
   fst (app g r (get_request ''/api/questions'')) =
     Inr (PList (map QuestionResponse_dump
            (map (\<lambda>(i, q). \<lparr>id_QR = int i, question_text_QR = question_text q, options_QR = options q\<rparr>)
               (List.enumerate 0 (QUESTIONS g))))) \<and>
   keys (QuestionResponse_dump resp) = [''id'', ''question_text'', ''options''] \<and>
   keys (QuestionDetailResponse_dump detail) =
     [''id'', ''question_text'', ''options'', ''correct_option_key'', ''explanation''] \<and>
   map fst (question_to_response q i False) = [''id'', ''question_text'', ''options''] \<and>
   map fst (question_to_response q i True) =
     [''id'', ''question_text'', ''options'', ''correct_option_key'', ''explanation'']"
proof -
  note h = handlers_response_fields [of question_id g resp detail q i]
  show ?thesis
    using h unfolding app_get_question app_get_question_detail app_get_all_questions
    by (auto simp del: append.simps)
qed

theorem C5_response_fields_witness:
  "get_question startup 2 =
     Inr \<lparr>id_QR = 2, question_text_QR = ''How do you write a comment in Python?'',
          options_QR = [''// comment'', ''<!-- comment -->'', ''/* comment */'', ''# comment'']\<rparr> \<and>
   get_question_detail startup 2 =
     Inr \<lparr>id_QDR = 2, question_text_QDR = ''How do you write a comment in Python?'',
          options_QDR = [''// comment'', ''<!-- comment -->'', ''/* comment */'', ''# comment''],
          correct_option_key_QDR = ''d'',
          explanation_QDR = ''Python uses the hash symbol (#) for single-line comments.''\<rparr>"
proof -
  have h: "(0::int) \<le> 2 \<and> 2 < int (length (QUESTIONS startup))"
    by (simp add: length_startup)
  have n: "QUESTIONS startup ! nat 2 =
     \<lparr>question_text = ''How do you write a comment in Python?'',
      options = [''// comment'', ''<!-- comment -->'', ''/* comment */'', ''# comment''],
      correct_option_key = ''d'',
      explanation = ''Python uses the hash symbol (#) for single-line comments.''\<rparr>"
    by (simp add: startup_def build_questions_def)
  from C5_response_fields [where question_id = 2 and g = startup and r = 0] h
  have "get_question startup 2 =
        Inr \<lparr>id_QR = 2,
             question_text_QR = question_text (QUESTIONS startup ! nat 2),
             options_QR = options (QUESTIONS startup ! nat 2)\<rparr>"
    and "get_question_detail startup 2 =
        Inr \<lparr>id_QDR = 2,
             question_text_QDR = question_text (QUESTIONS startup ! nat 2),
             options_QDR = options (QUESTIONS startup ! nat 2),
             correct_option_key_QDR = correct_option_key (QUESTIONS startup ! nat 2),
             explanation_QDR = explanation (QUESTIONS startup ! nat 2)\<rparr>"
    by blast+
  then show ?thesis by (simp only: n Question.simps)
qed



section \<open>Properties of the command-line quiz\<close>

lemma format_question_lines_ok:
  "idx + length opts \<le> 4 \<Longrightarrow> \<exists>lines. format_question_lines idx opts = Inr lines"
proof (induction opts arbitrary: idx)
  case Nil
  then show ?case by simp
next
  case (Cons opt opts)
  then have "idx < 4" by simp
  then have "\<exists>key. getitem LETTER_KEYS (int idx) = Inr key"
    by (simp add: getitem_def length_LETTER_KEYS)
  moreover from Cons have "\<exists>lines. format_question_lines (Suc idx) opts = Inr lines" by simp
  ultimately show ?case by auto
qed

lemma format_question_ok:
  "length (options q) \<le> 4 \<Longrightarrow> \<exists>text. format_question q = Inr text"
  using format_question_lines_ok [of 0 "options q"] by (auto simp: format_question_def)

lemma ask_for_choice_input_error:
  "ask_for_choice_input p ins out = (Inl e, ins', out') \<Longrightarrow> e = EOFError"
  by (induction p ins out rule: ask_for_choice_input.induct)
     (auto simp: Let_def split: if_splits)

lemma ask_for_choice_error: "ask_for_choice p st = (Inl e, st') \<Longrightarrow> e = EOFError"
  by (auto simp: ask_for_choice_def split: prod.splits dest: ask_for_choice_input_error)

lemma ask_for_choice_input_valid:
  "ask_for_choice_input p ins out = (Inr c, ins', out') \<Longrightarrow>
     c \<in> set [''q'', ''s''] \<or> c \<in> set LETTER_KEYS"
  by (induction p ins out rule: ask_for_choice_input.induct)
     (auto simp: Let_def split: if_splits)

lemma ask_for_choice_valid:
  "ask_for_choice p st = (Inr c, st') \<Longrightarrow> c \<in> set [''q'', ''s''] \<or> c \<in> set LETTER_KEYS"
  by (auto simp: ask_for_choice_def split: prod.splits dest: ask_for_choice_input_valid)

lemma ask_for_choice_token:
  assumes "stdin st = line # rest" "lower (strip line) = c"
    "c \<in> set [''q'', ''s''] \<or> c \<in> set LETTER_KEYS"
  shows "ask_for_choice p st = (Inr c, st\<lparr>stdin := rest, stdout := stdout st @ [p]\<rparr>)"
  using assms by (simp add: ask_for_choice_def Let_def)


lemma body_skip:
  assumes "stdin st = line # rest" "lower (strip line) = ''s''" "format_question q = Inr text"
  shows "run_quiz_loop_body q st =
     Continue (st\<lparr>stdin := rest,
                  stdout := stdout st @ [text @ nl, choice_prompt, ''Skipped.'' @ nl @ nl]\<rparr>)"
proof -
  have "stdin (print text st) = line # rest" using assms(1) by (simp add: print_def)
  then have "ask_for_choice choice_prompt (print text st) =
      (Inr ''s'', (print text st)\<lparr>stdin := rest, stdout := stdout (print text st) @ [choice_prompt]\<rparr>)"
    using assms(2) by (intro ask_for_choice_token) simp_all
  then show ?thesis
    using assms(3) by (simp add: run_quiz_loop_body_def print_def)
qed


lemma body_raise:
  assumes "length (options q) = 4" "correct_option_key q \<in> set LETTER_KEYS"
    and r: "run_quiz_loop_body q st = Raise e st'"
  shows "e = EOFError"
proof -
  from assms(1) obtain txt1 where f: "format_question q = Inr txt1"
    using format_question_ok [of q] by auto
  from assms(1,2) have "option_index_ok q" by (rule invariant_option_index_ok)
  then obtain k t where k: "index LETTER_KEYS (correct_option_key q) = Inr k"
    "getitem (options q) k = Inr t"
    using option_index_ok_iff by blast
  obtain res st1 where a: "ask_for_choice choice_prompt (print txt1 st) = (res, st1)"
    by (cases "ask_for_choice choice_prompt (print txt1 st)")
  show ?thesis
  proof (cases res)
    case (Inl e')
    with a have "e' = EOFError" using ask_for_choice_error by blast
    with r f a Inl show ?thesis by (simp add: run_quiz_loop_body_def)
  next
    case (Inr choice)
    with r f a k show ?thesis
      by (simp add: run_quiz_loop_body_def Let_def split: if_splits)
  qed
qed

lemma for_raise:
  "bank_invariant qs \<Longrightarrow> run_quiz_loop_for qs st = Raise e st' \<Longrightarrow> e = EOFError"
proof (induction qs arbitrary: st)
  case Nil
  then show ?case by simp
next
  case (Cons q qs)
  from Cons.prems(1) have q: "length (options q) = 4" "correct_option_key q \<in> set LETTER_KEYS"
    and qs: "bank_invariant qs"
    by (simp_all add: bank_invariant_def)
  show ?case
  proof (cases "run_quiz_loop_body q st")
    case (Continue st1)
    with Cons.prems(2) have "run_quiz_loop_for qs st1 = Raise e st'" by simp
    with qs show ?thesis by (rule Cons.IH)
  next
    case (Raise e1 st1)
    with Cons.prems(2) have "e1 = e" by simp
    with Raise q show ?thesis using body_raise by blast
  qed (use Cons.prems(2) in simp_all)
qed

lemma while_raise:
  "bank_invariant questions \<Longrightarrow> \<forall>n. set (shuffle n questions) \<subseteq> set questions \<Longrightarrow>
     run_quiz_loop_while shuffle questions n st = Raise e st' \<Longrightarrow> e = EOFError"
proof (induction shuffle questions n st rule: run_quiz_loop_while.induct)
  case (1 shuffle questions n st)
  let ?shuffled = "shuffle n questions"
  from "1.prems"(1,2) have b: "bank_invariant ?shuffled"
    by (auto simp: bank_invariant_def list_all_iff)
  show ?case
  proof (cases "?shuffled = []")
    case True
    with "1.prems"(3) show ?thesis by (simp add: run_quiz_loop_while.simps [of shuffle questions n st])
  next
    case False
    show ?thesis
    proof (cases "run_quiz_loop_for ?shuffled st")
      case (Continue st1)
      with False "1.prems"(3) have "run_quiz_loop_while shuffle questions (Suc n) st1 = Raise e st'"
        by (simp add: run_quiz_loop_while.simps [of shuffle questions n st])
      with "1.IH" [OF refl False Continue "1.prems"(1,2)] show ?thesis by simp
    next
      case (Raise e1 st1)
      with False "1.prems"(3) have "e1 = e"
        by (simp add: run_quiz_loop_while.simps [of shuffle questions n st])
      with Raise b show ?thesis using for_raise by blast
    qed (use False "1.prems"(3) in \<open>simp_all add: run_quiz_loop_while.simps [of shuffle questions n st]\<close>)
  qed
qed

lemma lower_strip_examples:
  "lower (strip '' Q '') = ''q''" "lower (strip ''S'') = ''s''"
  by (simp_all add: lower_def strip_def isspace_def lower_char_def)

lemma format_question_1:
  "format_question (build_questions ! 1) =
     Inr (''Which keyword is used to define a function in Python?'' @ nl @ ''  a) func'' @ nl
          @ ''  b) def'' @ nl @ ''  c) function'' @ nl @ ''  d) define'')"
  by (simp add: format_question_def build_questions_def getitem_def LETTER_KEYS_def)


lemma print_greeting_fields:
  "stdin (print_greeting st) = stdin st" "score (print_greeting st) = score st"
  "total_answered (print_greeting st) = total_answered st"
  by (simp_all add: print_greeting_def print_def)

lemma counters_advance_refl: "counters_advance st st"
  by (simp add: counters_advance_def)

lemma counters_advance_trans:
  "counters_advance st st1 \<Longrightarrow> counters_advance st1 st2 \<Longrightarrow> counters_advance st st2"
  by (simp add: counters_advance_def)

lemma counters_advance_ok: "counters_ok st \<Longrightarrow> counters_advance st st' \<Longrightarrow> counters_ok st'"
  by (simp add: counters_ok_def counters_advance_def)

lemma body_counters:
  "score st \<le> score (session_of (run_quiz_loop_body q st)) \<and>
   score (session_of (run_quiz_loop_body q st)) \<le> score st + 1 \<and>
   total_answered st \<le> total_answered (session_of (run_quiz_loop_body q st)) \<and>
   total_answered (session_of (run_quiz_loop_body q st)) \<le> total_answered st + 1 \<and>
   score (session_of (run_quiz_loop_body q st)) - score st
     \<le> total_answered (session_of (run_quiz_loop_body q st)) - total_answered st"
proof (cases "format_question q")
  case (Inl e)
  then show ?thesis by (simp add: run_quiz_loop_body_def)
next
  case (Inr txt1)
  obtain res st1 where a: "ask_for_choice choice_prompt (print txt1 st) = (res, st1)"
    by (cases "ask_for_choice choice_prompt (print txt1 st)")
  from ask_for_choice_counters [OF a]
  have c: "score st1 = score st" "total_answered st1 = total_answered st"
    by (simp_all add: print_def)
  show ?thesis
    using Inr a c
    by (cases res)
       (simp_all add: run_quiz_loop_body_def print_def Let_def split: sum.splits)
qed

lemma body_advance: "counters_advance st (session_of (run_quiz_loop_body q st))"
  using body_counters [of st q] by (simp add: counters_advance_def)

lemma body_answered:
  assumes "format_question q = Inr text"
    "ask_for_choice choice_prompt (print text st) = (Inr choice, st1)"
    "choice \<in> set LETTER_KEYS"
  shows "total_answered (session_of (run_quiz_loop_body q st)) = total_answered st + 1 \<and>
         score (session_of (run_quiz_loop_body q st)) =
           (if choice = correct_option_key q then score st + 1 else score st)"
proof -
  from ask_for_choice_counters [OF assms(2)]
  have c: "score st1 = score st" "total_answered st1 = total_answered st"
    by (simp_all add: print_def)
  from assms(3) have n: "choice \<noteq> ''q''" "choice \<noteq> ''s''"
    by (auto simp: LETTER_KEYS_def)
  show ?thesis
    using assms(1,2) c n
    by (simp add: run_quiz_loop_body_def print_def Let_def split: sum.splits)
qed

lemma for_advance: "counters_advance st (session_of (run_quiz_loop_for qs st))"
proof (induction qs arbitrary: st)
  case Nil
  then show ?case by (simp add: counters_advance_refl)
next
  case (Cons q qs)
  show ?case
  proof (cases "run_quiz_loop_body q st")
    case (Continue st1)
    with body_advance [of st q] have "counters_advance st st1" by simp
    moreover have "counters_advance st1 (session_of (run_quiz_loop_for qs st1))" by (rule Cons.IH)
    ultimately show ?thesis using Continue by (simp add: counters_advance_trans)
  qed (use body_advance [of st q] in simp_all)
qed

lemma while_advance:
  "counters_advance st (session_of (run_quiz_loop_while shuffle questions n st))"
proof (induction shuffle questions n st rule: run_quiz_loop_while.induct)
  case (1 shuffle questions n st)
  let ?shuffled = "shuffle n questions"
  show ?case
  proof (cases "?shuffled = []")
    case True
    then show ?thesis
      by (simp add: run_quiz_loop_while.simps [of shuffle questions n st] counters_advance_refl)
  next
    case False
    show ?thesis
    proof (cases "run_quiz_loop_for ?shuffled st")
      case (Continue st1)
      with for_advance [of st ?shuffled] have "counters_advance st st1" by simp
      moreover from "1.IH" [OF refl False Continue]
      have "counters_advance st1 (session_of (run_quiz_loop_while shuffle questions (Suc n) st1))" .
      ultimately show ?thesis
        using False Continue
        by (simp add: run_quiz_loop_while.simps [of shuffle questions n st] counters_advance_trans)
    qed (use False for_advance [of st ?shuffled] in
          \<open>simp_all add: run_quiz_loop_while.simps [of shuffle questions n st]\<close>)
  qed
qed

lemma format_question_0:
  "format_question (build_questions ! 0) =
     Inr (''What is the correct file extension for Python files?'' @ nl @ ''  a) .pyt'' @ nl
          @ ''  b) .pt'' @ nl @ ''  c) .py'' @ nl @ ''  d) .python'')"
  by (simp add: format_question_def build_questions_def getitem_def LETTER_KEYS_def)


lemma body_skip_general:
  assumes "format_question q = Inr text"
    "ask_for_choice choice_prompt (print text st) = (Inr ''s'', st1)"
  shows "run_quiz_loop_body q st = Continue (print (''Skipped.'' @ nl) st1) \<and>
         score st1 = score st \<and> total_answered st1 = total_answered st"
proof -
  from ask_for_choice_counters [OF assms(2)]
  have c: "score st1 = score st" "total_answered st1 = total_answered st"
    by (simp_all add: print_def)
  then show ?thesis using assms by (simp add: run_quiz_loop_body_def)
qed





text \<open>
  Claim C8. When the next line read is the token \<open>s\<close> (in any case, with surrounding
  blanks), the question is skipped: only \<^verbatim>\<open>Skipped.\<close> is printed after the question and the
  prompt, no feedback, explanation or score line; the loop goes on with the next question
  of the pass, and the score and the number of answered questions are what they were.
\<close>

theorem C8_skip:
  "(stdin st = line # rest \<and> lower (strip line) = ''s'' \<and> format_question q = Inr text \<longrightarrow>
      run_quiz_loop_body q st =
        Continue (st\<lparr>stdin := rest,
                     stdout := stdout st @ [text @ nl, choice_prompt, ''Skipped.'' @ nl @ nl]\<rparr>) \<and>
      run_quiz_loop_for (q # qs) st =
        run_quiz_loop_for qs
          (st\<lparr>stdin := rest,
              stdout := stdout st @ [text @ nl, choice_prompt, ''Skipped.'' @ nl @ nl]\<rparr>) \<and>
      score (session_of (run_quiz_loop_body q st)) = score st \<and>
      total_answered (session_of (run_quiz_loop_body q st)) = total_answered st) \<and>
   (format_question q = Inr text \<and>
    ask_for_choice choice_prompt (print text st) = (Inr ''s'', st') \<longrightarrow>
      run_quiz_loop_body q st = Continue (print (''Skipped.'' @ nl) st') \<and>
      run_quiz_loop_for (q # qs) st = run_quiz_loop_for qs (print (''Skipped.'' @ nl) st') \<and>
      score (print (''Skipped.'' @ nl) st') = score st \<and>
      total_answered (print (''Skipped.'' @ nl) st') = total_answered st)"
proof (intro conjI impI)
  assume h: "stdin st = line # rest \<and> lower (strip line) = ''s'' \<and> format_question q = Inr text"
  then have h1: "stdin st = line # rest" and h2: "lower (strip line) = ''s''"
    and h3: "format_question q = Inr text" by blast+
  have b: "run_quiz_loop_body q st =
        Continue (st\<lparr>stdin := rest,
                     stdout := stdout st @ [text @ nl, choice_prompt, ''Skipped.'' @ nl @ nl]\<rparr>)"
    by (rule body_skip [OF h1 h2 h3])
  from b show "run_quiz_loop_body q st =
        Continue (st\<lparr>stdin := rest,
                     stdout := stdout st @ [text @ nl, choice_prompt, ''Skipped.'' @ nl @ nl]\<rparr>)" .
  from b show "run_quiz_loop_for (q # qs) st =
        run_quiz_loop_for qs
          (st\<lparr>stdin := rest,
              stdout := stdout st @ [text @ nl, choice_prompt, ''Skipped.'' @ nl @ nl]\<rparr>)"
    by simp
  from b show "score (session_of (run_quiz_loop_body q st)) = score st" by simp
  from b show "total_answered (session_of (run_quiz_loop_body q st)) = total_answered st" by simp
next
  assume h: "format_question q = Inr text \<and>
    ask_for_choice choice_prompt (print text st) = (Inr ''s'', st')"
  then have g1: "format_question q = Inr text"
    and g2: "ask_for_choice choice_prompt (print text st) = (Inr ''s'', st')" by blast+
  have g: "run_quiz_loop_body q st = Continue (print (''Skipped.'' @ nl) st') \<and>
         score st' = score st \<and> total_answered st' = total_answered st"
    by (rule body_skip_general [OF g1 g2])
  from g show "run_quiz_loop_body q st = Continue (print (''Skipped.'' @ nl) st')" by simp
  from g show "run_quiz_loop_for (q # qs) st = run_quiz_loop_for qs (print (''Skipped.'' @ nl) st')"
    by simp
  from g show "score (print (''Skipped.'' @ nl) st') = score st" by (simp add: print_def)
  from g show "total_answered (print (''Skipped.'' @ nl) st') = total_answered st"
    by (simp add: print_def)
qed

theorem C8_skip_witness:
  "run_quiz_loop_body (build_questions ! 1)
     \<lparr>stdin = [''S'', ''q''], stdout = [], score = 3, total_answered = 5\<rparr> =
   Continue
     \<lparr>stdin = [''q''],
      stdout = [''Which keyword is used to define a function in Python?'' @ nl @ ''  a) func'' @ nl
                  @ ''  b) def'' @ nl @ ''  c) function'' @ nl @ ''  d) define'' @ nl,
                choice_prompt, ''Skipped.'' @ nl @ nl],
      score = 3, total_answered = 5\<rparr>"
proof -
  let ?st = "\<lparr>stdin = [''S'', ''q''], stdout = [], score = 3, total_answered = 5\<rparr>"
  have a: "stdin ?st = ''S'' # [''q''] \<and> lower (strip ''S'') = ''s'' \<and>
           format_question (build_questions ! 1) =
             Inr (''Which keyword is used to define a function in Python?'' @ nl @ ''  a) func'' @ nl
                  @ ''  b) def'' @ nl @ ''  c) function'' @ nl @ ''  d) define'')"
    using lower_strip_examples(2) format_question_1 by simp
  from C8_skip [where st = ?st and line = "''S''" and rest = "[''q'']" and q = "build_questions ! 1"
      and qs = "[]" and st' = ?st] a
  have "run_quiz_loop_body (build_questions ! 1) ?st =
        Continue (?st\<lparr>stdin := [''q''],
                     stdout := stdout ?st @
                       [(''Which keyword is used to define a function in Python?'' @ nl
                         @ ''  a) func'' @ nl @ ''  b) def'' @ nl @ ''  c) function'' @ nl
                         @ ''  d) define'') @ nl, choice_prompt, ''Skipped.'' @ nl @ nl]\<rparr>)"
    by blast
  then show ?thesis by simp
qed

text \<open>
  Claim C9. For a request that validates and an id in range, the submit handler fails
  exactly when the correct key of the question does not map to one of its options, and
  then with the \<open>ValueError\<close> of the lookup or the \<open>IndexError\<close> of the indexing. Under the
  invariant of the bank it always returns a response. In the command-line loop, over
  questions that satisfy the invariant, the only exception is the end of the input: the
  lookup and the indexing of the feedback never raise. The bank of the program satisfies
  the invariant.
\<close>

theorem C9_resolution_safe:
  "(0 \<le> question_id \<and> question_id < int (length (QUESTIONS g)) \<and> answer \<in> set LETTER_KEYS \<longrightarrow>
      ((\<exists>e. post_quiz_submit g question_id answer = Inl e) \<longleftrightarrow>
         \<not> option_index_ok (QUESTIONS g ! nat question_id)) \<and>
      (\<forall>e. post_quiz_submit g question_id answer = Inl e \<longrightarrow> e = ValueError \<or> e = IndexError)) \<and>
   (bank_invariant (QUESTIONS g) \<and> 0 \<le> question_id \<and> question_id < int (length (QUESTIONS g)) \<and>
    answer \<in> set LETTER_KEYS \<longrightarrow>
      (\<exists>resp. post_quiz_submit g question_id answer = Inr resp)) \<and>
   (bank_invariant qs \<longrightarrow>
      (\<forall>e st'. run_quiz_loop_for qs st = Raise e st' \<longrightarrow> e = EOFError)) \<and>
   (bank_invariant questions \<and> (\<forall>n. set (shuffle n questions) \<subseteq> set questions) \<longrightarrow>
      (\<forall>e st'. run_quiz_loop_while shuffle questions n st = Raise e st' \<longrightarrow> e = EOFError)) \<and>
   bank_invariant (QUESTIONS startup) \<and> bank_invariant build_questions"
proof (intro conjI impI allI)
  assume h: "0 \<le> question_id \<and> question_id < int (length (QUESTIONS g)) \<and> answer \<in> set LETTER_KEYS"
  then show "(\<exists>e. post_quiz_submit g question_id answer = Inl e) \<longleftrightarrow>
         \<not> option_index_ok (QUESTIONS g ! nat question_id)"
    by (intro post_quiz_submit_error_iff(1)) simp_all
  fix e
  assume "post_quiz_submit g question_id answer = Inl e"
  with h show "e = ValueError \<or> e = IndexError"
    using post_quiz_submit_error_iff(2) by blast
next
  assume "bank_invariant (QUESTIONS g) \<and> 0 \<le> question_id \<and>
    question_id < int (length (QUESTIONS g)) \<and> answer \<in> set LETTER_KEYS"
  then show "\<exists>resp. post_quiz_submit g question_id answer = Inr resp"
    using post_quiz_submit_bank_ok by blast
next
  fix e st'
  assume "bank_invariant qs" "run_quiz_loop_for qs st = Raise e st'"
  then show "e = EOFError" by (rule for_raise)
next
  fix e st'
  assume "bank_invariant questions \<and> (\<forall>n. set (shuffle n questions) \<subseteq> set questions)"
    and "run_quiz_loop_while shuffle questions n st = Raise e st'"
  then show "e = EOFError" using while_raise by blast
qed (simp_all add: bank_startup bank_build_questions)

theorem C9_resolution_safe_witness:
  "(\<exists>resp. post_quiz_submit startup 3 ''a'' = Inr resp) \<and>
   option_index_ok (QUESTIONS startup ! nat 3)"
proof -
  have h: "(0::int) \<le> 3 \<and> 3 < int (length (QUESTIONS startup)) \<and> ''a'' \<in> set LETTER_KEYS"
    by (simp add: length_startup LETTER_KEYS_def)
  from C9_resolution_safe [of 3 startup "''a''"]
  have b: "bank_invariant (QUESTIONS startup)"
    and ok: "\<exists>resp. post_quiz_submit startup 3 ''a'' = Inr resp"
    and iff: "(\<exists>e. post_quiz_submit startup 3 ''a'' = Inl e) \<longleftrightarrow>
         \<not> option_index_ok (QUESTIONS startup ! nat 3)"
    using h by blast+
  from ok iff have "option_index_ok (QUESTIONS startup ! nat 3)" by auto
  with ok show ?thesis by blast
qed

text \<open>
  Claim C10. One question of the loop never lowers a counter, raises the number of
  answered questions by at most 1 and the score by no more than that; a question answered
  with a letter raises the number of answered questions by exactly 1 and the score by 1
  when the letter is the correct key, by 0 otherwise. So the counters advance over a pass
  and over the whole loop, a session whose score lies between 0 and the number of answered
  questions stays so, and the program, which starts at 0 and 0, ends in such a session
  whatever it reads and however the passes are shuffled, also when the input ends early.
\<close>

theorem C10_counters:
  "counters_advance st (session_of (run_quiz_loop_body q st)) \<and>
   total_answered (session_of (run_quiz_loop_body q st)) \<le> total_answered st + 1 \<and>
   score (session_of (run_quiz_loop_body q st)) \<le> score st + 1 \<and>
   (format_question q = Inr text \<and>
    ask_for_choice choice_prompt (print text st) = (Inr choice, st1) \<and>
    choice \<in> set LETTER_KEYS \<longrightarrow>
      total_answered (session_of (run_quiz_loop_body q st)) = total_answered st + 1 \<and>
      score (session_of (run_quiz_loop_body q st)) =
        (if choice = correct_option_key q then score st + 1 else score st)) \<and>
   counters_advance st (session_of (run_quiz_loop_for qs st)) \<and>
   counters_advance st (session_of (run_quiz_loop_while shuffle questions n st)) \<and>
   (counters_ok st \<longrightarrow>
      counters_ok (session_of (run_quiz_loop_body q st)) \<and>
      counters_ok (session_of (run_quiz_loop_for qs st)) \<and>
      counters_ok (session_of (run_quiz_loop_while shuffle questions n st))) \<and>
   counters_ok (session_of (run_quiz_loop shuffle input_lines))"
proof -
  let ?init = "print_greeting \<lparr>stdin = input_lines, stdout = [], score = 0, total_answered = 0\<rparr>"
  have "counters_ok ?init"
    by (simp add: counters_ok_def print_greeting_fields)
  then have "counters_ok (session_of (run_quiz_loop_while shuffle build_questions 0 ?init))"
    using while_advance by (rule counters_advance_ok)
  then have r: "counters_ok (session_of (run_quiz_loop shuffle input_lines))"
    by (simp add: run_quiz_loop_def)
  show ?thesis
    using body_counters [of st q] body_advance [of st q] for_advance [of st qs]
      while_advance [of st shuffle questions n] r body_answered [of q "text" st choice st1]
      counters_advance_ok [of st]
    by blast
qed

theorem C10_counters_witness:
  "total_answered (session_of (run_quiz_loop_body (build_questions ! 0)
       \<lparr>stdin = [''C'', ''q''], stdout = [], score = 1, total_answered = 2\<rparr>)) = 3 \<and>
   score (session_of (run_quiz_loop_body (build_questions ! 0)
       \<lparr>stdin = [''C'', ''q''], stdout = [], score = 1, total_answered = 2\<rparr>)) = 2 \<and>
   counters_ok (session_of (run_quiz_loop_body (build_questions ! 0)
       \<lparr>stdin = [''C'', ''q''], stdout = [], score = 1, total_answered = 2\<rparr>))"
proof -
  let ?st = "\<lparr>stdin = [''C'', ''q''], stdout = [], score = 1, total_answered = 2\<rparr>"
  let ?text = "''What is the correct file extension for Python files?'' @ nl @ ''  a) .pyt'' @ nl
          @ ''  b) .pt'' @ nl @ ''  c) .py'' @ nl @ ''  d) .python''"
  have l: "lower (strip ''C'') = ''c''"
    by (simp add: lower_def strip_def isspace_def lower_char_def)
  have "stdin (print ?text ?st) = ''C'' # [''q'']" by (simp add: print_def)
  then have a: "ask_for_choice choice_prompt (print ?text ?st) =
      (Inr ''c'', (print ?text ?st)\<lparr>stdin := [''q''],
                     stdout := stdout (print ?text ?st) @ [choice_prompt]\<rparr>)"
    using l by (intro ask_for_choice_token) (simp_all add: LETTER_KEYS_def)
  have k: "''c'' \<in> set LETTER_KEYS" by (simp add: LETTER_KEYS_def)
  have c: "correct_option_key (build_questions ! 0) = ''c''" by (simp add: build_questions_def)
  have o: "counters_ok ?st" by (simp add: counters_ok_def)
  from C10_counters [of ?st "build_questions ! 0" ?text "''c''" _ "[]" "\<lambda>n xs. xs" "[]" 0 "[]"]
    format_question_0 a k o
  have "total_answered (session_of (run_quiz_loop_body (build_questions ! 0) ?st)) =
          total_answered ?st + 1"
    and "score (session_of (run_quiz_loop_body (build_questions ! 0) ?st)) =
          (if ''c'' = correct_option_key (build_questions ! 0) then score ?st + 1 else score ?st)"
    and "counters_ok (session_of (run_quiz_loop_body (build_questions ! 0) ?st))"
    by blast+
  then show ?thesis by (simp add: c)
qed

end
